theory Spec2Isabelle
  imports Main "HOL-Library.Log_Nat" "HOL-Library.Sublist"
begin

section \<open>Python numbers used by the icon generator\<close>

text \<open>
  The script \<^verbatim>\<open>assets/icon/generate_icons.py\<close> computes every coordinate with
  Python's unbounded integers (\<^verbatim>\<open>//\<close> is floor division, which is \<open>div\<close> on
  \<^typ>\<open>int\<close>) and with products of an integer and a float literal that are cut back
  to an integer by \<^verbatim>\<open>int(...)\<close>.  A Python float is an IEEE binary64 number.  The
  finite ones are the dyadic rationals with at most 53 significant bits; a value is kept
  here as a numerator and the exponent of its power-of-two denominator.
\<close>

datatype error =
    OverflowError
  | FileExistsError
  | FileNotFoundError
  | IsADirectoryError
  | NotADirectoryError

record pyfloat =
  mant :: int
  expo :: nat

text \<open>The number a \<^typ>\<open>pyfloat\<close> stands for is \<open>mant / 2 ^ expo\<close>.\<close>

text \<open>
  Rounding of an integer to the nearest integer with at most 53 significant bits, ties
  going to the even 53-bit significand: what the hardware does to the exact result of a
  binary64 operation, and what CPython does when it converts an \<^verbatim>\<open>int\<close> to a
  \<^verbatim>\<open>float\<close>.
\<close>

definition round53 :: "int \<Rightarrow> int" where
  "round53 n =
     (let a = \<bar>n\<bar>; k = nat (bitlen a - 53)
      in if k = 0 then n
         else let q = a div 2 ^ k; r = a mod 2 ^ k; h = 2 ^ (k - 1);
                  q' = (if h < r \<or> (r = h \<and> odd q) then q + 1 else q)
              in sgn n * (q' * 2 ^ k))"

text \<open>
  \<^verbatim>\<open>float(n)\<close> for an \<^verbatim>\<open>int\<close>, as the mixed product \<^verbatim>\<open>n * 0.6\<close> performs it:
  CPython raises \<^verbatim>\<open>OverflowError\<close> when the rounded magnitude reaches \<open>2 ^ 1024\<close>.
\<close>

definition float_of_int :: "int \<Rightarrow> error + pyfloat" where
  "float_of_int n =
     (let r = round53 n
      in if 2 ^ 1024 \<le> \<bar>r\<bar> then Inl OverflowError else Inr \<lparr>mant = r, expo = 0\<rparr>)"

text \<open>
  The binary64 product: the exact product rounded to 53 significant bits.  The second
  factor is always one of the literals below, a normal number below one, so that the
  product of a nonzero integer-valued float with it neither overflows nor falls into the
  subnormal range, and no infinity or gradual underflow has to be modelled.
\<close>

definition float_mul :: "pyfloat \<Rightarrow> pyfloat \<Rightarrow> pyfloat" where
  "float_mul a b = \<lparr>mant = round53 (mant a * mant b), expo = expo a + expo b\<rparr>"

definition int_mul_float :: "int \<Rightarrow> pyfloat \<Rightarrow> error + pyfloat" where
  "int_mul_float n c =
     (case float_of_int n of Inl e \<Rightarrow> Inl e | Inr f \<Rightarrow> Inr (float_mul f c))"

text \<open>\<^verbatim>\<open>int(f)\<close> cuts the fraction off, towards zero.\<close>

definition int_of_float :: "pyfloat \<Rightarrow> int" where
  "int_of_float f = sgn (mant f) * (\<bar>mant f\<bar> div 2 ^ expo f)"

text \<open>
  The float literals of the script, each the binary64 number nearest to the decimal
  written in the source: \<^verbatim>\<open>0.6\<close> is \<^verbatim>\<open>0x1.3333333333333p-1\<close>, \<^verbatim>\<open>0.4\<close> is
  \<^verbatim>\<open>0x1.999999999999ap-2\<close>, \<^verbatim>\<open>0.7\<close> is \<^verbatim>\<open>0x1.6666666666666p-1\<close>, \<^verbatim>\<open>0.075\<close> is
  \<^verbatim>\<open>0x1.3333333333333p-4\<close>, \<^verbatim>\<open>0.35\<close> is \<^verbatim>\<open>0x1.6666666666666p-2\<close>, \<^verbatim>\<open>0.68\<close> is
  \<^verbatim>\<open>0x1.5c28f5c28f5c3p-1\<close> and \<^verbatim>\<open>0.09\<close> is \<^verbatim>\<open>0x1.70a3d70a3d70ap-4\<close>.
\<close>

definition c_0_6 :: pyfloat where "c_0_6 = \<lparr>mant = 0x13333333333333, expo = 53\<rparr>"
definition c_0_4 :: pyfloat where "c_0_4 = \<lparr>mant = 0x1999999999999A, expo = 54\<rparr>"
definition c_0_7 :: pyfloat where "c_0_7 = \<lparr>mant = 0x16666666666666, expo = 53\<rparr>"
definition c_0_075 :: pyfloat where "c_0_075 = \<lparr>mant = 0x13333333333333, expo = 56\<rparr>"
definition c_0_35 :: pyfloat where "c_0_35 = \<lparr>mant = 0x16666666666666, expo = 54\<rparr>"
definition c_0_68 :: pyfloat where "c_0_68 = \<lparr>mant = 0x15C28F5C28F5C3, expo = 53\<rparr>"
definition c_0_09 :: pyfloat where "c_0_09 = \<lparr>mant = 0x170A3D70A3D70A, expo = 56\<rparr>"

text \<open>The expression \<^verbatim>\<open>int(n * c)\<close>, which is how every float enters a coordinate.\<close>

definition int_of_product :: "int \<Rightarrow> pyfloat \<Rightarrow> error + int" where
  "int_of_product n c =
     (case int_mul_float n c of Inl e \<Rightarrow> Inl e | Inr f \<Rightarrow> Inr (int_of_float f))"


section \<open>The imaging library, as far as the script uses it\<close>

text \<open>
  Pillow is not part of the repository.  What the script hands to it is recorded, not
  interpreted: an image object keeps the arguments of \<^verbatim>\<open>Image.new\<close> and, in order,
  every drawing call made on it.  A colour is a Python tuple of three or four channels.
  A keyword argument that a call leaves out (\<^verbatim>\<open>outline\<close>, \<^verbatim>\<open>fill\<close>) is \<open>None\<close>.
  The library calls are taken to succeed: the memory that a pixel buffer needs and
  Pillow's own limits on the dimensions of an image are not modelled, and the statements
  below are about the positive sizes that the script and its specification consider.
\<close>

datatype colour = C3 int int int | C4 int int int int

type_synonym box = "int \<times> int \<times> int \<times> int"

datatype draw_op =
    Rectangle box "colour option" "colour option"
  | Ellipse box "colour option" "colour option"
  | Arc box int int "colour option" int

datatype mode = RGB | RGBA

record image =
  im_mode :: mode
  im_size :: "int \<times> int"
  im_fill :: colour
  im_ops :: "draw_op list"

text \<open>
  Image objects live in the interpreter's heap and are mutated in place through the
  drawing handle; a reference is the position of the object in the list of all image
  objects created so far.
\<close>

type_synonym ref = nat
type_synonym heap = "image list"

definition Image_new :: "mode \<Rightarrow> int \<times> int \<Rightarrow> colour \<Rightarrow> heap \<Rightarrow> ref \<times> heap" where
  "Image_new m sz color h =
     (length h, h @ [\<lparr>im_mode = m, im_size = sz, im_fill = color, im_ops = []\<rparr>])"

text \<open>
  \<^verbatim>\<open>ImageDraw.Draw(img)\<close>: the handle draws into \<^verbatim>\<open>img\<close> itself.  A handle
  always refers to an object that exists; for an index outside the heap, which no
  program can produce, a drawing call leaves the heap as it is.
\<close>

definition Draw :: "ref \<Rightarrow> ref" where
  "Draw img = img"

definition draw_call :: "ref \<Rightarrow> draw_op \<Rightarrow> heap \<Rightarrow> heap" where
  "draw_call draw op h =
     (if draw < length h then h[draw := (h ! draw)\<lparr>im_ops := im_ops (h ! draw) @ [op]\<rparr>]
      else h)"

definition rectangle :: "ref \<Rightarrow> box \<Rightarrow> colour option \<Rightarrow> colour option \<Rightarrow> heap \<Rightarrow> heap" where
  "rectangle draw xy fill outline = draw_call draw (Rectangle xy fill outline)"

definition ellipse :: "ref \<Rightarrow> box \<Rightarrow> colour option \<Rightarrow> colour option \<Rightarrow> heap \<Rightarrow> heap" where
  "ellipse draw xy fill outline = draw_call draw (Ellipse xy fill outline)"

definition arc :: "ref \<Rightarrow> box \<Rightarrow> int \<Rightarrow> int \<Rightarrow> colour option \<Rightarrow> int \<Rightarrow> heap \<Rightarrow> heap" where
  "arc draw xy start end' fill w = draw_call draw (Arc xy start end' fill w)"

section \<open>The icon renderer\<close>

definition BG_COLOR :: colour where "BG_COLOR = C3 26 26 46"
definition WHITE :: colour where "WHITE = C3 255 255 255"
definition GREEN :: colour where "GREEN = C3 76 175 80"

text \<open>
  \<^verbatim>\<open>draw_notebook(draw, x, y, size, color)\<close>.  The body and the spine are drawn
  before \<^verbatim>\<open>int(size * 0.6)\<close> is evaluated; when that raises, the exception leaves
  every caller in the script, nobody looks at the surface again, and the model returns
  the error alone.
\<close>

definition page_line :: "ref \<Rightarrow> int \<Rightarrow> int \<Rightarrow> int \<Rightarrow> int \<Rightarrow> int \<Rightarrow> int \<Rightarrow> int \<Rightarrow> heap \<Rightarrow> heap" where
  "page_line draw y left sz line_spacing line_width line_height i h =
     (let line_y = y + (i - 1) * line_spacing;
          line_left = left + sz div 5
      in rectangle draw
           (line_left, line_y - line_height div 2,
            line_left + line_width, line_y + line_height div 2)
           (Some (C3 230 230 230)) None h)"

definition draw_notebook :: "ref \<Rightarrow> int \<Rightarrow> int \<Rightarrow> int \<Rightarrow> colour \<Rightarrow> heap \<Rightarrow> error + heap" where
  "draw_notebook draw x y sz color h =
     (let left = x - sz div 2;
          top = y - sz div 2;
          right = x + sz div 2;
          bottom = y + sz div 2;
          h = rectangle draw (left, top, right, bottom) (Some color) (Some color) h;
          spine_width = sz div 10;
          h = rectangle draw (left, top, left + spine_width, bottom)
                (Some (C3 200 200 200)) (Some (C3 200 200 200)) h;
          line_spacing = sz div 6
      in case int_of_product sz c_0_6 of
           Inl e \<Rightarrow> Inl e
         | Inr line_width \<Rightarrow>
             (let line_height = sz div 25
              in Inr (fold (page_line draw y left sz line_spacing line_width line_height)
                        [0, 1, 2] h)))"

text \<open>
  \<^verbatim>\<open>draw_lock_badge(draw, x, y, size)\<close>.  The badge circle is drawn before
  \<^verbatim>\<open>int(size * 0.6)\<close> is evaluated; as above an error is returned alone.
\<close>

definition draw_lock_badge :: "ref \<Rightarrow> int \<Rightarrow> int \<Rightarrow> int \<Rightarrow> heap \<Rightarrow> error + heap" where
  "draw_lock_badge draw x y sz h =
     (let h = ellipse draw (x - sz, y - sz, x + sz, y + sz) (Some GREEN) (Some GREEN) h;
          lock_width = sz div 2
      in case int_of_product sz c_0_6 of
           Inl e \<Rightarrow> Inl e
         | Inr lock_height \<Rightarrow>
             (let lock_left = x - lock_width div 2;
                  lock_top = y - lock_height div 4;
                  h = rectangle draw
                        (lock_left, lock_top,
                         lock_left + lock_width, lock_top + lock_height div 2)
                        (Some WHITE) None h;
                  shackle_size = lock_width div 3;
                  shackle_thickness = sz div 7;
                  h = arc draw
                        (x - shackle_size, y - lock_height div 2 - shackle_size,
                         x + shackle_size, y - lock_height div 4)
                        180 0 (Some WHITE) shackle_thickness h;
                  keyhole_size = sz div 8;
                  h = ellipse draw
                        (x - keyhole_size, y - keyhole_size,
                         x + keyhole_size, y + keyhole_size)
                        (Some GREEN) None h
              in Inr h))"

section \<open>The icon set generator\<close>

definition generate_app_icon :: "int \<Rightarrow> heap \<Rightarrow> error + ref \<times> heap" where
  "generate_app_icon sz h =
     (let (img, h) = Image_new RGB (sz, sz) BG_COLOR h;
          draw = Draw img
      in case int_of_product sz c_0_4 of Inl e \<Rightarrow> Inl e | Inr notebook_size \<Rightarrow>
        (case draw_notebook draw (sz div 2) (sz div 2) notebook_size WHITE h of
           Inl e \<Rightarrow> Inl e | Inr h \<Rightarrow>
        (case int_of_product sz c_0_7 of Inl e \<Rightarrow> Inl e | Inr badge_x \<Rightarrow>
        (case int_of_product sz c_0_7 of Inl e \<Rightarrow> Inl e | Inr badge_y \<Rightarrow>
        (case int_of_product sz c_0_075 of Inl e \<Rightarrow> Inl e | Inr badge_size \<Rightarrow>
        (case draw_lock_badge draw badge_x badge_y badge_size h of
           Inl e \<Rightarrow> Inl e | Inr h \<Rightarrow> Inr (img, h)))))))"

definition generate_foreground_icon :: "int \<Rightarrow> heap \<Rightarrow> error + ref \<times> heap" where
  "generate_foreground_icon sz h =
     (let (img, h) = Image_new RGBA (sz, sz) (C4 0 0 0 0) h;
          draw = Draw img
      in case int_of_product sz c_0_4 of Inl e \<Rightarrow> Inl e | Inr notebook_size \<Rightarrow>
        (case draw_notebook draw (sz div 2) (sz div 2) notebook_size WHITE h of
           Inl e \<Rightarrow> Inl e | Inr h \<Rightarrow>
        (case int_of_product sz c_0_7 of Inl e \<Rightarrow> Inl e | Inr badge_x \<Rightarrow>
        (case int_of_product sz c_0_7 of Inl e \<Rightarrow> Inl e | Inr badge_y \<Rightarrow>
        (case int_of_product sz c_0_075 of Inl e \<Rightarrow> Inl e | Inr badge_size \<Rightarrow>
        (case draw_lock_badge draw badge_x badge_y badge_size h of
           Inl e \<Rightarrow> Inl e | Inr h \<Rightarrow> Inr (img, h)))))))"

definition generate_splash_icon :: "int \<Rightarrow> heap \<Rightarrow> error + ref \<times> heap" where
  "generate_splash_icon sz h =
     (let (img, h) = Image_new RGBA (sz, sz) (C4 0 0 0 0) h;
          draw = Draw img
      in case int_of_product sz c_0_35 of Inl e \<Rightarrow> Inl e | Inr notebook_size \<Rightarrow>
        (case draw_notebook draw (sz div 2) (sz div 2) notebook_size WHITE h of
           Inl e \<Rightarrow> Inl e | Inr h \<Rightarrow>
        (case int_of_product sz c_0_68 of Inl e \<Rightarrow> Inl e | Inr badge_x \<Rightarrow>
        (case int_of_product sz c_0_68 of Inl e \<Rightarrow> Inl e | Inr badge_y \<Rightarrow>
        (case int_of_product sz c_0_09 of Inl e \<Rightarrow> Inl e | Inr badge_size \<Rightarrow>
        (case draw_lock_badge draw badge_x badge_y badge_size h of
           Inl e \<Rightarrow> Inl e | Inr h \<Rightarrow> Inr (img, h)))))))"

text \<open>
  What a call of a generator hands back to its caller: the image object behind the
  returned reference, or the exception.
\<close>

definition returned :: "error + ref \<times> heap \<Rightarrow> error + image" where
  "returned res = (case res of Inl e \<Rightarrow> Inl e | Inr (img, h) \<Rightarrow> Inr (h ! img))"

section \<open>The driver and its environment\<close>

text \<open>
  The script prints to the standard output, creates a directory and writes three files.
  A path is the list of its components below the root; \<^verbatim>\<open>os.path.join\<close> with a plain
  file name appends a component and \<^verbatim>\<open>os.path.dirname\<close> drops the last one (the root
  is its own parent).  A file holds the image that was saved into it.  Text is kept as
  UTF-8 bytes, one string for each \<^verbatim>\<open>print\<close>.
\<close>

type_synonym path = "string list"

record world =
  heap :: heap
  files :: "path \<Rightarrow> image option"
  dirs :: "path set"
  stdout :: "string list"

definition dirname :: "path \<Rightarrow> path" where
  "dirname p = butlast p"

definition join :: "path \<Rightarrow> string \<Rightarrow> path" where
  "join p name = p @ [name]"

definition print :: "string \<Rightarrow> world \<Rightarrow> world" where
  "print s w = w\<lparr>stdout := stdout w @ [s]\<rparr>"

text \<open>
  \<^verbatim>\<open>os.makedirs(p, exist_ok=True)\<close> creates \<open>p\<close> and every missing ancestor and accepts
  a directory that is already there; it fails when \<open>p\<close> or an ancestor is a file.
\<close>

definition makedirs :: "path \<Rightarrow> world \<Rightarrow> error + world" where
  "makedirs p w =
     (if files w p \<noteq> None then Inl FileExistsError
      else if \<exists>q \<in> set (prefixes p). files w q \<noteq> None then Inl NotADirectoryError
      else Inr (w\<lparr>dirs := dirs w \<union> set (prefixes p)\<rparr>))"

text \<open>
  \<^verbatim>\<open>img.save(p)\<close> opens \<open>p\<close> for writing and stores the image: it fails when \<open>p\<close> is
  a directory or when the parent of \<open>p\<close> is not a directory.  Failures of the platform
  beyond these (permissions, a full disk) are not modelled.
\<close>

definition save :: "ref \<Rightarrow> path \<Rightarrow> world \<Rightarrow> error + world" where
  "save img p w =
     (if p \<in> dirs w then Inl IsADirectoryError
      else if files w (dirname p) \<noteq> None then Inl NotADirectoryError
      else if dirname p \<notin> dirs w then Inl FileNotFoundError
      else Inr (w\<lparr>files := (files w)(p \<mapsto> heap w ! img)\<rparr>))"

text \<open>
  \<^verbatim>\<open>main()\<close>, given the absolute path of the script file
  (\<^verbatim>\<open>os.path.abspath(__file__)\<close>).  No exception is caught, so the first failing step
  ends the run; what was printed and written before stays.  The result is the exception,
  if any, and the world the run leaves behind.
\<close>

definition main :: "path \<Rightarrow> world \<Rightarrow> error option \<times> world" where
  "main script_file w =
     (let script_dir = dirname script_file;
          w = print ([CHR 0xF0, CHR 0x9F, CHR 0x8E, CHR 0xA8]
                @ '' Generating Encrypted Notebook icons...'') w;
          w = print (''  '' @ [CHR 0xF0, CHR 0x9F, CHR 0x93, CHR 0xB1]
                @ '' Generating app_icon.png (1024x1024)...'') w
      in case generate_app_icon 1024 (heap w) of
           Inl e \<Rightarrow> (Some e, w)
         | Inr (app_icon, h) \<Rightarrow>
     (let w = w\<lparr>heap := h\<rparr>
      in case save app_icon (join script_dir ''app_icon.png'') w of
           Inl e \<Rightarrow> (Some e, w)
         | Inr w \<Rightarrow>
     (let w = print (''  '' @ [CHR 0xF0, CHR 0x9F, CHR 0x8E, CHR 0xAD]
                @ '' Generating app_icon_foreground.png (1024x1024)...'') w
      in case generate_foreground_icon 1024 (heap w) of
           Inl e \<Rightarrow> (Some e, w)
         | Inr (foreground_icon, h) \<Rightarrow>
     (let w = w\<lparr>heap := h\<rparr>
      in case save foreground_icon (join script_dir ''app_icon_foreground.png'') w of
           Inl e \<Rightarrow> (Some e, w)
         | Inr w \<Rightarrow>
     (let w = print (''  '' @ [CHR 0xF0, CHR 0x9F, CHR 0x92, CHR 0xAB]
                @ '' Generating splash_icon.png (512x512)...'') w
      in case generate_splash_icon 512 (heap w) of
           Inl e \<Rightarrow> (Some e, w)
         | Inr (splash_icon, h) \<Rightarrow>
     (let w = w\<lparr>heap := h\<rparr>;
          splash_dir = join (dirname script_dir) ''splash''
      in case makedirs splash_dir w of
           Inl e \<Rightarrow> (Some e, w)
         | Inr w \<Rightarrow>
     (case save splash_icon (join splash_dir ''splash_icon.png'') w of
           Inl e \<Rightarrow> (Some e, w)
         | Inr w \<Rightarrow>
     (let w = print ([CHR 0xE2, CHR 0x9C, CHR 0x85]
                @ '' All icons generated successfully!'') w;
          w = print (CHR 0x0A # ''Next steps:'') w;
          w = print ''  1. Run: flutter pub get'' w;
          w = print ''  2. Run: flutter pub run flutter_launcher_icons'' w;
          w = print ''  3. Run: flutter pub run flutter_native_splash:create'' w;
          w = print ''  4. Run: flutter run'' w
      in (None, w)))))))))"

text \<open>
  The module as a whole.  Whether \<^verbatim>\<open>from PIL import Image, ImageDraw\<close> succeeds is a
  fact about the installation, and whether the module runs as the main program is a fact
  about how it was started; both are parameters.  \<^verbatim>\<open>exit(1)\<close> ends the process with
  status 1; an exception that leaves \<^verbatim>\<open>main\<close> ends it uncaught.
\<close>

datatype status = Exit int | Uncaught error

definition script :: "bool \<Rightarrow> bool \<Rightarrow> path \<Rightarrow> world \<Rightarrow> status \<times> world" where
  "script pillow_found is_main script_file w =
     (if \<not> pillow_found then
        (let w = print ''Error: Pillow library not found.'' w;
             w = print ''Install it with: pip install pillow'' w
         in (Exit 1, w))
      else if is_main then
        (case main script_file w of
           (None, w) \<Rightarrow> (Exit 0, w)
         | (Some e, w) \<Rightarrow> (Uncaught e, w))
      else (Exit 0, w))"

section \<open>Reading an image\<close>

text \<open>
  Which pixels a drawing call touches is decided inside Pillow.  The rasteriser is
  therefore a parameter \<open>R\<close>: \<open>R op p\<close> is the colour argument of the call \<open>op\<close> that
  lands on the pixel \<open>p\<close>, or \<open>None\<close> when the call leaves \<open>p\<close> alone.  A colour is
  stored in the mode of the image: an \<^verbatim>\<open>RGB\<close> image has three bands, and a triple
  drawn on an \<^verbatim>\<open>RGBA\<close> image is opaque.  Later calls paint over earlier ones.
\<close>

fun ink :: "mode \<Rightarrow> colour \<Rightarrow> colour" where
  "ink RGB (C3 r g b) = C3 r g b"
| "ink RGB (C4 r g b a) = C3 r g b"
| "ink RGBA (C3 r g b) = C4 r g b 255"
| "ink RGBA (C4 r g b a) = C4 r g b a"

fun alpha :: "colour \<Rightarrow> int option" where
  "alpha (C3 r g b) = None"
| "alpha (C4 r g b a) = Some a"

definition in_image :: "image \<Rightarrow> int \<times> int \<Rightarrow> bool" where
  "in_image img p =
     (0 \<le> fst p \<and> fst p < fst (im_size img) \<and> 0 \<le> snd p \<and> snd p < snd (im_size img))"

definition getpixel :: "(draw_op \<Rightarrow> int \<times> int \<Rightarrow> colour option) \<Rightarrow> image \<Rightarrow> int \<times> int \<Rightarrow> colour option" where
  "getpixel R img p =
     (if in_image img p then
        Some (fold (\<lambda>op c. case R op p of None \<Rightarrow> c | Some col \<Rightarrow> ink (im_mode img) col)
                (im_ops img) (ink (im_mode img) (im_fill img)))
      else None)"

text \<open>
  The bounding box of a call, and a rasteriser to compute with: every call fills its
  whole bounding box.  It serves as a concrete instance only.
\<close>

fun op_box :: "draw_op \<Rightarrow> box" where
  "op_box (Rectangle xy fill outline) = xy"
| "op_box (Ellipse xy fill outline) = xy"
| "op_box (Arc xy start end' fill w) = xy"

fun op_colour :: "draw_op \<Rightarrow> colour option" where
  "op_colour (Rectangle xy fill outline) = fill"
| "op_colour (Ellipse xy fill outline) = fill"
| "op_colour (Arc xy start end' fill w) = fill"

definition in_box :: "box \<Rightarrow> int \<times> int \<Rightarrow> bool" where
  "in_box xy p =
     (case xy of (x0, y0, x1, y1) \<Rightarrow> x0 \<le> fst p \<and> fst p \<le> x1 \<and> y0 \<le> snd p \<and> snd p \<le> y1)"

definition box_raster :: "draw_op \<Rightarrow> int \<times> int \<Rightarrow> colour option" where
  "box_raster op p = (if in_box (op_box op) p then op_colour op else None)"

section \<open>Where the badge is\<close>

text \<open>
  Each generator issues five calls for the notebook and then four for the badge; the
  badge disk is the ellipse that comes sixth.  The centre of a bounding box with an even
  width and height is its midpoint.
\<close>

definition badge_disk :: "image \<Rightarrow> box option" where
  "badge_disk img =
     (case drop 5 (im_ops img) of Ellipse xy fill outline # rest \<Rightarrow> Some xy | _ \<Rightarrow> None)"

definition box_centre :: "box \<Rightarrow> int \<times> int" where
  "box_centre xy = (case xy of (x0, y0, x1, y1) \<Rightarrow> ((x0 + x1) div 2, (y0 + y1) div 2))"

definition box_within :: "box \<Rightarrow> int \<Rightarrow> bool" where
  "box_within xy s =
     (case xy of (x0, y0, x1, y1) \<Rightarrow> 0 \<le> x0 \<and> x0 \<le> x1 \<and> x1 \<le> s - 1 \<and> 0 \<le> y0 \<and> y0 \<le> y1 \<and> y1 \<le> s - 1)"

section \<open>The specification's reading of two quantities\<close>

text \<open>
  The specification places the badge centre at \<^verbatim>\<open>round(0.7*s)\<close> (app icon) and
  \<^verbatim>\<open>round(0.68*s)\<close> (splash icon), and the top of the lock body at
  \<^verbatim>\<open>center_y - size/4\<close>.  These definitions follow its words, to be compared with
  what the code computes: \<^verbatim>\<open>round\<close> is Python's, to the nearest integer with ties to
  the even one, applied to the same binary64 product.
\<close>

definition round_of_float :: "pyfloat \<Rightarrow> int" where
  "round_of_float f =
     (let d = 2 ^ expo f; q = \<bar>mant f\<bar> div d; r = \<bar>mant f\<bar> mod d
      in sgn (mant f) * (if d < 2 * r \<or> (2 * r = d \<and> odd q) then q + 1 else q))"

definition spec_badge_centre :: "int \<Rightarrow> pyfloat \<Rightarrow> error + int \<times> int" where
  "spec_badge_centre s c =
     (case int_mul_float s c of
        Inl e \<Rightarrow> Inl e
      | Inr f \<Rightarrow> Inr (round_of_float f, round_of_float f))"

definition spec_lock_body_top :: "int \<Rightarrow> int \<Rightarrow> int" where
  "spec_lock_body_top center_y sz = center_y - sz div 4"

section \<open>A proof device\<close>

text \<open>Appending several calls to one image at once.\<close>

definition add_ops :: "ref \<Rightarrow> draw_op list \<Rightarrow> heap \<Rightarrow> heap" where
  "add_ops draw os h = h[draw := (h ! draw)\<lparr>im_ops := im_ops (h ! draw) @ os\<rparr>]"

text \<open>The calls of the two drawing routines, and the image a generator builds, as values.\<close>

definition notebook_ops :: "int \<Rightarrow> int \<Rightarrow> int \<Rightarrow> colour \<Rightarrow> int \<Rightarrow> draw_op list" where
  "notebook_ops x y sz color lw =
     [Rectangle (x - sz div 2, y - sz div 2, x + sz div 2, y + sz div 2) (Some color) (Some color),
      Rectangle (x - sz div 2, y - sz div 2, x - sz div 2 + sz div 10, y + sz div 2)
        (Some (C3 200 200 200)) (Some (C3 200 200 200)),
      Rectangle (x - sz div 2 + sz div 5, y - sz div 6 - sz div 25 div 2,
                 x - sz div 2 + sz div 5 + lw, y - sz div 6 + sz div 25 div 2)
        (Some (C3 230 230 230)) None,
      Rectangle (x - sz div 2 + sz div 5, y - sz div 25 div 2,
                 x - sz div 2 + sz div 5 + lw, y + sz div 25 div 2)
        (Some (C3 230 230 230)) None,
      Rectangle (x - sz div 2 + sz div 5, y + sz div 6 - sz div 25 div 2,
                 x - sz div 2 + sz div 5 + lw, y + sz div 6 + sz div 25 div 2)
        (Some (C3 230 230 230)) None]"

definition badge_ops :: "int \<Rightarrow> int \<Rightarrow> int \<Rightarrow> int \<Rightarrow> draw_op list" where
  "badge_ops x y sz lh =
     [Ellipse (x - sz, y - sz, x + sz, y + sz) (Some GREEN) (Some GREEN),
      Rectangle (x - sz div 2 div 2, y - lh div 4,
                 x - sz div 2 div 2 + sz div 2, y - lh div 4 + lh div 2)
        (Some WHITE) None,
      Arc (x - sz div 2 div 3, y - lh div 2 - sz div 2 div 3,
           x + sz div 2 div 3, y - lh div 4)
        180 0 (Some WHITE) (sz div 7),
      Ellipse (x - sz div 8, y - sz div 8, x + sz div 8, y + sz div 8) (Some GREEN) None]"

definition icon_image :: "mode \<Rightarrow> colour \<Rightarrow> pyfloat \<Rightarrow> pyfloat \<Rightarrow> pyfloat \<Rightarrow> int \<Rightarrow> error + image" where
  "icon_image m bg cn cb cs s =
     (case int_of_product s cn of Inl e \<Rightarrow> Inl e | Inr nb \<Rightarrow>
     (case int_of_product nb c_0_6 of Inl e \<Rightarrow> Inl e | Inr lw \<Rightarrow>
     (case int_of_product s cb of Inl e \<Rightarrow> Inl e | Inr b \<Rightarrow>
     (case int_of_product s cs of Inl e \<Rightarrow> Inl e | Inr r \<Rightarrow>
     (case int_of_product r c_0_6 of Inl e \<Rightarrow> Inl e | Inr lh \<Rightarrow>
        Inr \<lparr>im_mode = m, im_size = (s, s), im_fill = bg,
             im_ops = notebook_ops (s div 2) (s div 2) nb WHITE lw @ badge_ops b b r lh\<rparr>)))))"

text \<open>
  A float literal that is at most one even after the two roundings of \<^verbatim>\<open>int(n * c)\<close>
  have gone against it; every literal of the script is.
\<close>

definition fraction :: "pyfloat \<Rightarrow> bool" where
  "fraction c = (0 \<le> mant c \<and> mant c * (2 ^ 53 + 1) ^ 2 \<le> 2 ^ expo c * 2 ^ 106)"

definition badge_centre :: "image \<Rightarrow> (int \<times> int) option" where
  "badge_centre img = map_option box_centre (badge_disk img)"

text \<open>The calls recorded on the image behind a drawing handle.\<close>

definition ops_of :: "ref \<Rightarrow> heap \<Rightarrow> draw_op list" where
  "ops_of draw h = (if draw < length h then im_ops (h ! draw) else [])"

section \<open>Facts about the float model\<close>

text \<open>
  Rounding to 53 significant bits moves a non-negative integer by at most the
  \<open>2 ^ 53\<close>-th part of itself.  The bounds on \<^verbatim>\<open>int(n * c)\<close> follow: two roundings
  (the conversion of \<open>n\<close> and the product) and one truncation.
\<close>

lemma round53_error:
  assumes "0 \<le> n"
  shows "0 \<le> round53 n \<and> \<bar>round53 n - n\<bar> * 2 ^ 53 \<le> n"
proof (cases "nat (bitlen n - 53) = 0")
  case True
  then show ?thesis using assms by (simp add: round53_def Let_def)
next
  case False
  define k where "k = nat (bitlen n - 53)"
  define q where "q = n div 2 ^ k"
  define r where "r = n mod 2 ^ k"
  define h :: int where "h = 2 ^ (k - 1)"
  define q' where "q' = (if h < r \<or> (r = h \<and> odd q) then q + 1 else q)"
  have kpos: "0 < k" using False by (simp add: k_def)
  have npos: "0 < n" using False assms by (cases "n = 0") auto
  have bl: "bitlen n = int k + 53" using kpos by (simp add: k_def)
  have "(2::int) ^ nat (bitlen n - 1) \<le> n" using bitlen_bounds [OF npos] by simp
  moreover have "nat (bitlen n - 1) = k + 52" using bl by simp
  ultimately have low: "(2::int) ^ (k + 52) \<le> n" by simp
  have two: "(2::int) ^ k = 2 * h"
    using kpos by (cases k) (simp_all add: h_def)
  have hpow: "h * 2 ^ 53 = 2 ^ (k + 52)"
    using kpos by (cases k) (simp_all add: h_def power_add)
  have dec: "n = q * 2 ^ k + r"
    unfolding q_def r_def by (rule div_mult_mod_eq [symmetric])
  have r0: "0 \<le> r" and r1: "r < 2 ^ k" by (simp_all add: r_def)
  have q0: "0 \<le> q" using assms by (simp add: q_def pos_imp_zdiv_nonneg_iff)
  have an: "\<bar>n\<bar> = n" using assms by simp
  have "round53 n = (if k = 0 then n else sgn n * (q' * 2 ^ k))"
    unfolding round53_def Let_def an q'_def h_def r_def q_def k_def by (rule refl)
  then have val: "round53 n = q' * 2 ^ k"
    using kpos npos by simp
  have diff: "\<bar>q' * 2 ^ k - n\<bar> \<le> h"
  proof (cases "h < r \<or> (r = h \<and> odd q)")
    case True
    then have "q' = q + 1" by (simp add: q'_def)
    then have "q' * 2 ^ k - n = 2 * h - r" using dec two by (simp add: algebra_simps)
    then show ?thesis using True r1 two by auto
  next
    case False
    then have "q' = q" by (simp add: q'_def)
    then have "q' * 2 ^ k - n = - r" using dec by simp
    then show ?thesis using False r0 by auto
  qed
  have "\<bar>q' * 2 ^ k - n\<bar> * 2 ^ 53 \<le> h * 2 ^ 53"
    using diff by (simp add: mult_right_mono)
  then have "\<bar>round53 n - n\<bar> * 2 ^ 53 \<le> n" using hpow low val by simp
  moreover have "0 \<le> q'" using q0 by (simp add: q'_def)
  then have "0 \<le> round53 n" using val by simp
  ultimately show ?thesis by simp
qed

lemma round53_upper:
  assumes "0 \<le> n"
  shows "round53 n * 2 ^ 53 \<le> n * (2 ^ 53 + 1)"
proof -
  define P :: int where "P = 2 ^ 53"
  have "\<bar>round53 n - n\<bar> * P \<le> n" using round53_error [OF assms] by (simp add: P_def)
  moreover have "(round53 n - n) * P \<le> \<bar>round53 n - n\<bar> * P"
    by (rule mult_right_mono) (simp_all add: P_def)
  ultimately have "round53 n * P \<le> n * (P + 1)" by (simp add: algebra_simps)
  then show ?thesis by (simp add: P_def)
qed

lemma round53_lower:
  assumes "0 \<le> n"
  shows "n * (2 ^ 53 - 1) \<le> round53 n * 2 ^ 53"
proof -
  define P :: int where "P = 2 ^ 53"
  have "\<bar>round53 n - n\<bar> * P \<le> n" using round53_error [OF assms] by (simp add: P_def)
  moreover have "(n - round53 n) * P \<le> \<bar>round53 n - n\<bar> * P"
    by (rule mult_right_mono) (simp_all add: P_def)
  ultimately have "n * (P - 1) \<le> round53 n * P" by (simp add: algebra_simps)
  then show ?thesis by (simp add: P_def)
qed

lemma round53_nonneg: "0 \<le> n \<Longrightarrow> 0 \<le> round53 n"
  using round53_error [of n] by simp

lemma int_of_product_Inr:
  "int_of_product s c = Inr v \<Longrightarrow>
     v = sgn (round53 (round53 s * mant c)) * (\<bar>round53 (round53 s * mant c)\<bar> div 2 ^ expo c)"
  by (auto simp add: int_of_product_def int_mul_float_def float_of_int_def float_mul_def
      int_of_float_def Let_def split: if_splits)

lemma int_of_product_defined:
  assumes "0 \<le> s" and "s < 2 ^ 1023"
  shows "\<exists>v. int_of_product s c = Inr v"
proof -
  have "round53 s * 2 ^ 53 \<le> s * (2 ^ 53 + 1)" using assms(1) by (rule round53_upper)
  moreover have "s * (2 ^ 53 + 1) < 2 ^ 1023 * (2 ^ 53 + 1)"
    using assms(2) by (simp add: mult_strict_right_mono)
  moreover have "(2::int) ^ 1023 * (2 ^ 53 + 1) \<le> 2 ^ 1024 * 2 ^ 53" by simp
  ultimately have "round53 s * 2 ^ 53 < 2 ^ 1024 * 2 ^ 53" by linarith
  then have "round53 s < 2 ^ 1024" by simp
  moreover have "0 \<le> round53 s" using assms(1) by (rule round53_nonneg)
  ultimately show ?thesis
    by (simp add: int_of_product_def int_mul_float_def float_of_int_def Let_def)
qed

lemma int_of_product_bounds:
  assumes s: "0 \<le> s" and m: "0 \<le> mant c" and v: "int_of_product s c = Inr v"
  shows "0 \<le> v"
    and "v * 2 ^ expo c * 2 ^ 106 \<le> mant c * s * (2 ^ 53 + 1) ^ 2"
    and "mant c * s * (2 ^ 53 - 1) ^ 2 < (v + 1) * 2 ^ expo c * 2 ^ 106"
proof -
  define P :: int where "P = 2 ^ 53"
  define E :: int where "E = 2 ^ expo c"
  define f where "f = round53 s"
  define g where "g = round53 (f * mant c)"
  have P0: "0 < P" and E0: "0 < E" by (simp_all add: P_def E_def)
  have P1: "0 \<le> P - 1" by (simp add: P_def)
  have f0: "0 \<le> f" unfolding f_def using s by (rule round53_nonneg)
  have n0: "0 \<le> f * mant c" using f0 m by simp
  have g0: "0 \<le> g" unfolding g_def using n0 by (rule round53_nonneg)
  have fu: "f * P \<le> s * (P + 1)"
    unfolding f_def P_def using s by (rule round53_upper)
  have fl: "s * (P - 1) \<le> f * P"
    unfolding f_def P_def using s by (rule round53_lower)
  have gu: "g * P \<le> f * mant c * (P + 1)"
    unfolding g_def P_def using n0 by (rule round53_upper)
  have gl: "f * mant c * (P - 1) \<le> g * P"
    unfolding g_def P_def using n0 by (rule round53_lower)
  have veq: "v = g div E"
    using int_of_product_Inr [OF v] g0 by (cases "g = 0") (simp_all add: f_def g_def E_def)
  show "0 \<le> v" using g0 E0 by (simp add: veq pos_imp_zdiv_nonneg_iff)
  have dm: "g div E * E + g mod E = g"
    by (rule div_mult_mod_eq)
  have m0: "0 \<le> g mod E" using E0 by simp
  have m1: "g mod E < E" using E0 by simp
  have vle: "v * E \<le> g"
    unfolding veq using dm m0 by linarith
  have "(g div E + 1) * E = g div E * E + E"
    by (simp add: distrib_right)
  then have vgt: "g < (v + 1) * E"
    unfolding veq using dm m1 by linarith
  have "(v * E) * (P * P) \<le> g * (P * P)"
    using vle P0 by (intro mult_right_mono) simp_all
  also have "\<dots> = (g * P) * P" by simp
  also have "\<dots> \<le> (f * mant c * (P + 1)) * P"
    using gu P0 by (intro mult_right_mono) simp_all
  also have "\<dots> = (mant c * (P + 1)) * (f * P)" by (simp add: algebra_simps)
  also have "\<dots> \<le> (mant c * (P + 1)) * (s * (P + 1))"
    using fu m P0 by (intro mult_left_mono) simp_all
  also have "\<dots> = mant c * s * (P + 1) ^ 2" by (simp add: power2_eq_square algebra_simps)
  finally have up: "(v * E) * (P * P) \<le> mant c * s * (P + 1) ^ 2" .
  have PP: "P * P = 2 ^ 106" by (simp add: P_def)
  show "v * 2 ^ expo c * 2 ^ 106 \<le> mant c * s * (2 ^ 53 + 1) ^ 2"
    using up unfolding PP unfolding P_def E_def .
  have "mant c * s * (P - 1) ^ 2 = (mant c * (P - 1)) * (s * (P - 1))"
    by (simp add: power2_eq_square algebra_simps)
  also have "\<dots> \<le> (mant c * (P - 1)) * (f * P)"
    using fl m P1 by (intro mult_left_mono) simp_all
  also have "\<dots> = (f * mant c * (P - 1)) * P" by (simp add: algebra_simps)
  also have "\<dots> \<le> (g * P) * P"
    using gl P0 by (intro mult_right_mono) simp_all
  also have "\<dots> = g * (P * P)" by simp
  also have "\<dots> < ((v + 1) * E) * (P * P)"
    using vgt P0 by (intro mult_strict_right_mono) simp_all
  finally have lo: "mant c * s * (P - 1) ^ 2 < ((v + 1) * E) * (P * P)" .
  show "mant c * s * (2 ^ 53 - 1) ^ 2 < (v + 1) * 2 ^ expo c * 2 ^ 106"
    using lo unfolding PP unfolding P_def E_def .
qed

section \<open>Facts about drawing into the heap\<close>

lemma length_add_ops: "length (add_ops draw os h) = length h"
  by (simp add: add_ops_def)

lemma draw_call_add_ops: "draw < length h \<Longrightarrow> draw_call draw op h = add_ops draw [op] h"
  by (simp add: draw_call_def add_ops_def)

lemma add_ops_twice:
  "draw < length h \<Longrightarrow> add_ops draw bs (add_ops draw as h) = add_ops draw (as @ bs) h"
  by (simp add: add_ops_def)

lemma add_ops_nth:
  "draw < length h \<Longrightarrow> add_ops draw os h ! draw = (h ! draw)\<lparr>im_ops := im_ops (h ! draw) @ os\<rparr>"
  by (simp add: add_ops_def)

lemma add_ops_other: "i \<noteq> draw \<Longrightarrow> add_ops draw os h ! i = h ! i"
  by (simp add: add_ops_def)

lemma add_ops_fresh:
  "add_ops (length h) os (h @ [img]) = h @ [img\<lparr>im_ops := im_ops img @ os\<rparr>]"
  by (simp add: add_ops_def)

lemma draw_notebook_add_ops:
  assumes "draw < length h" and "int_of_product sz c_0_6 = Inr lw"
  shows "draw_notebook draw x y sz color h = Inr (add_ops draw (notebook_ops x y sz color lw) h)"
  using assms
  by (simp add: draw_notebook_def Let_def page_line_def rectangle_def draw_call_add_ops
      length_add_ops add_ops_twice notebook_ops_def)

lemma draw_notebook_error:
  "int_of_product sz c_0_6 = Inl e \<Longrightarrow> draw_notebook draw x y sz color h = Inl e"
  by (simp add: draw_notebook_def Let_def)

lemma draw_lock_badge_add_ops:
  assumes "draw < length h" and "int_of_product sz c_0_6 = Inr lh"
  shows "draw_lock_badge draw x y sz h = Inr (add_ops draw (badge_ops x y sz lh) h)"
  using assms
  by (simp add: draw_lock_badge_def Let_def rectangle_def ellipse_def arc_def draw_call_add_ops
      length_add_ops add_ops_twice badge_ops_def)

lemma draw_lock_badge_error:
  "int_of_product sz c_0_6 = Inl e \<Longrightarrow> draw_lock_badge draw x y sz h = Inl e"
  by (simp add: draw_lock_badge_def Let_def)

lemma generate_app_icon_image:
  "generate_app_icon s h =
     (case icon_image RGB BG_COLOR c_0_4 c_0_7 c_0_075 s of
        Inl e \<Rightarrow> Inl e | Inr img \<Rightarrow> Inr (length h, h @ [img]))"
  by (simp add: generate_app_icon_def icon_image_def Image_new_def Draw_def
      draw_notebook_add_ops draw_notebook_error draw_lock_badge_add_ops draw_lock_badge_error
      length_add_ops add_ops_twice add_ops_fresh split: sum.splits)

lemma generate_foreground_icon_image:
  "generate_foreground_icon s h =
     (case icon_image RGBA (C4 0 0 0 0) c_0_4 c_0_7 c_0_075 s of
        Inl e \<Rightarrow> Inl e | Inr img \<Rightarrow> Inr (length h, h @ [img]))"
  by (simp add: generate_foreground_icon_def icon_image_def Image_new_def Draw_def
      draw_notebook_add_ops draw_notebook_error draw_lock_badge_add_ops draw_lock_badge_error
      length_add_ops add_ops_twice add_ops_fresh split: sum.splits)

lemma generate_splash_icon_image:
  "generate_splash_icon s h =
     (case icon_image RGBA (C4 0 0 0 0) c_0_35 c_0_68 c_0_09 s of
        Inl e \<Rightarrow> Inl e | Inr img \<Rightarrow> Inr (length h, h @ [img]))"
  by (simp add: generate_splash_icon_def icon_image_def Image_new_def Draw_def
      draw_notebook_add_ops draw_notebook_error draw_lock_badge_add_ops draw_lock_badge_error
      length_add_ops add_ops_twice add_ops_fresh split: sum.splits)

lemma returned_app: "returned (generate_app_icon s h) = icon_image RGB BG_COLOR c_0_4 c_0_7 c_0_075 s"
  by (simp add: generate_app_icon_image returned_def split: sum.splits)

lemma returned_foreground:
  "returned (generate_foreground_icon s h) = icon_image RGBA (C4 0 0 0 0) c_0_4 c_0_7 c_0_075 s"
  by (simp add: generate_foreground_icon_image returned_def split: sum.splits)

lemma returned_splash:
  "returned (generate_splash_icon s h) = icon_image RGBA (C4 0 0 0 0) c_0_35 c_0_68 c_0_09 s"
  by (simp add: generate_splash_icon_image returned_def split: sum.splits)

section \<open>Facts about the generated images\<close>

lemma fraction_literals:
  "fraction c_0_6" "fraction c_0_4" "fraction c_0_7" "fraction c_0_075"
  "fraction c_0_35" "fraction c_0_68" "fraction c_0_09"
  by (simp_all add: fraction_def c_0_6_def c_0_4_def c_0_7_def c_0_075_def c_0_35_def
      c_0_68_def c_0_09_def)

lemma int_of_product_le:
  assumes s: "0 \<le> s" and c: "fraction c" and v: "int_of_product s c = Inr v"
  shows "0 \<le> v \<and> v \<le> s"
proof -
  define K :: int where "K = 2 ^ expo c * 2 ^ 106"
  have m: "0 \<le> mant c" and le: "mant c * (2 ^ 53 + 1) ^ 2 \<le> K"
    using c by (simp_all add: fraction_def K_def)
  have K0: "0 < K" by (simp add: K_def)
  have "v * K = v * 2 ^ expo c * 2 ^ 106" by (simp add: K_def)
  also have "\<dots> \<le> mant c * s * (2 ^ 53 + 1) ^ 2" using s m v by (rule int_of_product_bounds(2))
  also have "\<dots> = s * (mant c * (2 ^ 53 + 1) ^ 2)" by (simp add: algebra_simps)
  also have "\<dots> \<le> s * K" using le s by (rule mult_left_mono)
  finally have "v * K \<le> s * K" .
  then have "v \<le> s" using K0 by simp
  moreover have "0 \<le> v" using s m v by (rule int_of_product_bounds(1))
  ultimately show ?thesis by simp
qed

lemma icon_image_Inr:
  assumes "icon_image m bg cn cb cs s = Inr img"
  shows "\<exists>nb lw b r lh.
           int_of_product s cn = Inr nb \<and> int_of_product nb c_0_6 = Inr lw \<and>
           int_of_product s cb = Inr b \<and> int_of_product s cs = Inr r \<and>
           int_of_product r c_0_6 = Inr lh \<and>
           img = \<lparr>im_mode = m, im_size = (s, s), im_fill = bg,
                  im_ops = notebook_ops (s div 2) (s div 2) nb WHITE lw @ badge_ops b b r lh\<rparr>"
  using assms by (auto simp add: icon_image_def split: sum.splits)

lemma icon_image_defined:
  assumes s0: "0 \<le> s" and s1: "s < 2 ^ 1023"
    and cn: "fraction cn" and cs: "fraction cs"
  shows "\<exists>img. icon_image m bg cn cb cs s = Inr img"
proof -
  obtain nb where nb: "int_of_product s cn = Inr nb"
    using int_of_product_defined [OF s0 s1] by blast
  have nb_le: "0 \<le> nb \<and> nb \<le> s" using s0 cn nb by (rule int_of_product_le)
  then have "0 \<le> nb" and "nb < 2 ^ 1023" using s1 by simp_all
  then obtain lw where lw: "int_of_product nb c_0_6 = Inr lw"
    using int_of_product_defined by blast
  obtain b where b: "int_of_product s cb = Inr b"
    using int_of_product_defined [OF s0 s1] by blast
  obtain r where r: "int_of_product s cs = Inr r"
    using int_of_product_defined [OF s0 s1] by blast
  have "0 \<le> r \<and> r \<le> s" using s0 cs r by (rule int_of_product_le)
  then have "0 \<le> r" and "r < 2 ^ 1023" using s1 by simp_all
  then obtain lh where lh: "int_of_product r c_0_6 = Inr lh"
    using int_of_product_defined by blast
  show ?thesis by (simp add: icon_image_def nb lw b r lh)
qed

lemma badge_disk_ops:
  "badge_disk \<lparr>im_mode = m, im_size = sz, im_fill = bg,
               im_ops = notebook_ops x y nb color lw @ badge_ops bx by r lh\<rparr>
   = Some (bx - r, by - r, bx + r, by + r)"
  by (simp add: badge_disk_def notebook_ops_def badge_ops_def)

lemma icon_image_badge:
  assumes "icon_image m bg cn cb cs s = Inr img"
  shows "\<exists>b r. int_of_product s cb = Inr b \<and> int_of_product s cs = Inr r \<and>
               badge_disk img = Some (b - r, b - r, b + r, b + r)"
  using icon_image_Inr [OF assms] by (auto simp add: badge_disk_ops)

lemma app_badge_fits:
  assumes s: "1 \<le> s"
    and b: "int_of_product s c_0_7 = Inr b"
    and r: "int_of_product s c_0_075 = Inr r"
  shows "0 \<le> r \<and> r \<le> b \<and> b + r \<le> s - 1"
proof -
  have s0: "0 \<le> s" using s by simp
  have m1: "0 \<le> mant c_0_7" and m2: "0 \<le> mant c_0_075"
    by (simp_all add: c_0_7_def c_0_075_def)
  note B = int_of_product_bounds [OF s0 m1 b]
  note R = int_of_product_bounds [OF s0 m2 r]
  have b_up: "b * 2 ^ 159 \<le> 0x16666666666666 * s * (2 ^ 53 + 1) ^ 2"
    using B(2) by (simp add: c_0_7_def)
  have b_lo: "0x16666666666666 * s * (2 ^ 53 - 1) ^ 2 < (b + 1) * 2 ^ 159"
    using B(3) by (simp add: c_0_7_def)
  have r_up: "r * 2 ^ 162 \<le> 0x13333333333333 * s * (2 ^ 53 + 1) ^ 2"
    using R(2) by (simp add: c_0_075_def)
  have "r \<le> b" using b_up b_lo r_up s by simp
  moreover have "b + r \<le> s - 1" using b_up r_up s by simp
  ultimately show ?thesis using R(1) by simp
qed

lemma splash_badge_fits:
  assumes s: "1 \<le> s"
    and b: "int_of_product s c_0_68 = Inr b"
    and r: "int_of_product s c_0_09 = Inr r"
  shows "0 \<le> r \<and> r \<le> b \<and> b + r \<le> s - 1"
proof -
  have s0: "0 \<le> s" using s by simp
  have m1: "0 \<le> mant c_0_68" and m2: "0 \<le> mant c_0_09"
    by (simp_all add: c_0_68_def c_0_09_def)
  note B = int_of_product_bounds [OF s0 m1 b]
  note R = int_of_product_bounds [OF s0 m2 r]
  have b_up: "b * 2 ^ 159 \<le> 0x15C28F5C28F5C3 * s * (2 ^ 53 + 1) ^ 2"
    using B(2) by (simp add: c_0_68_def)
  have b_lo: "0x15C28F5C28F5C3 * s * (2 ^ 53 - 1) ^ 2 < (b + 1) * 2 ^ 159"
    using B(3) by (simp add: c_0_68_def)
  have r_up: "r * 2 ^ 162 \<le> 0x170A3D70A3D70A * s * (2 ^ 53 + 1) ^ 2"
    using R(2) by (simp add: c_0_09_def)
  have "r \<le> b" using b_up b_lo r_up s by simp
  moreover have "b + r \<le> s - 1" using b_up r_up s by simp
  ultimately show ?thesis using R(1) by simp
qed

text \<open>
  Below \<open>2 ^ 40\<close> the two roundings are too small to be seen after the truncation:
  \<^verbatim>\<open>int(s * c)\<close> is the exact product cut down, or one less when the exact product is
  itself an integer that the binary literal falls just short of.
\<close>

lemma product_0_7:
  assumes "0 \<le> s" and "s < 2 ^ 40" and "int_of_product s c_0_7 = Inr b"
  shows "7 * s - 10 \<le> 10 * b \<and> 10 * b \<le> 7 * s"
proof -
  have m: "0 \<le> mant c_0_7" by (simp add: c_0_7_def)
  note B = int_of_product_bounds [OF assms(1) m assms(3)]
  have up: "b * 2 ^ 159 \<le> 0x16666666666666 * s * (2 ^ 53 + 1) ^ 2"
    using B(2) by (simp add: c_0_7_def)
  have lo: "0x16666666666666 * s * (2 ^ 53 - 1) ^ 2 < (b + 1) * 2 ^ 159"
    using B(3) by (simp add: c_0_7_def)
  show ?thesis using up lo assms(1,2) by simp
qed

lemma product_0_68:
  assumes "0 \<le> s" and "s < 2 ^ 40" and "int_of_product s c_0_68 = Inr b"
  shows "68 * s - 100 \<le> 100 * b \<and> 100 * b \<le> 68 * s"
proof -
  have m: "0 \<le> mant c_0_68" by (simp add: c_0_68_def)
  note B = int_of_product_bounds [OF assms(1) m assms(3)]
  have up: "b * 2 ^ 159 \<le> 0x15C28F5C28F5C3 * s * (2 ^ 53 + 1) ^ 2"
    using B(2) by (simp add: c_0_68_def)
  have lo: "0x15C28F5C28F5C3 * s * (2 ^ 53 - 1) ^ 2 < (b + 1) * 2 ^ 159"
    using B(3) by (simp add: c_0_68_def)
  show ?thesis using up lo assms(1,2) by simp
qed

lemma product_0_6:
  assumes "0 \<le> s" and "s < 2 ^ 40" and "int_of_product s c_0_6 = Inr v"
  shows "6 * s - 10 \<le> 10 * v \<and> 10 * v \<le> 6 * s"
proof -
  have m: "0 \<le> mant c_0_6" by (simp add: c_0_6_def)
  note B = int_of_product_bounds [OF assms(1) m assms(3)]
  have up: "v * 2 ^ 159 \<le> 0x13333333333333 * s * (2 ^ 53 + 1) ^ 2"
    using B(2) by (simp add: c_0_6_def)
  have lo: "0x13333333333333 * s * (2 ^ 53 - 1) ^ 2 < (v + 1) * 2 ^ 159"
    using B(3) by (simp add: c_0_6_def)
  show ?thesis using up lo assms(1,2) by simp
qed

section \<open>The claims\<close>

subsection \<open>The badge stays on the canvas\<close>

text \<open>
  Claim C9.  For every requested size \<open>s \<ge> 1\<close> the lock-badge disk drawn by each of the
  three generators lies inside the \<open>s \<times> s\<close> canvas: the app and the foreground icon
  draw it around \<^verbatim>\<open>(int(0.7*s), int(0.7*s))\<close> with radius \<^verbatim>\<open>int(0.075*s)\<close>, the
  splash icon around \<^verbatim>\<open>(int(0.68*s), int(0.68*s))\<close> with radius \<^verbatim>\<open>int(0.09*s)\<close>, and
  in both cases the bounding box of the disk runs from a coordinate that is at least 0 to
  one that is at most \<open>s - 1\<close>.  A generator that returns an image has drawn such a
  disk, and below \<open>2 ^ 1023\<close> every generator does return one (beyond, the conversion of
  the size to a float raises before anything is drawn).
\<close>

theorem badge_disk_inside_canvas:
  assumes "1 \<le> s"
  shows "(\<forall>img. returned (generate_app_icon s h) = Inr img \<longrightarrow>
            (\<exists>b r. int_of_product s c_0_7 = Inr b \<and> int_of_product s c_0_075 = Inr r \<and>
                   badge_disk img = Some (b - r, b - r, b + r, b + r) \<and>
                   box_within (b - r, b - r, b + r, b + r) s))
       \<and> (\<forall>img. returned (generate_foreground_icon s h) = Inr img \<longrightarrow>
            (\<exists>b r. int_of_product s c_0_7 = Inr b \<and> int_of_product s c_0_075 = Inr r \<and>
                   badge_disk img = Some (b - r, b - r, b + r, b + r) \<and>
                   box_within (b - r, b - r, b + r, b + r) s))
       \<and> (\<forall>img. returned (generate_splash_icon s h) = Inr img \<longrightarrow>
            (\<exists>b r. int_of_product s c_0_68 = Inr b \<and> int_of_product s c_0_09 = Inr r \<and>
                   badge_disk img = Some (b - r, b - r, b + r, b + r) \<and>
                   box_within (b - r, b - r, b + r, b + r) s))
       \<and> (s < 2 ^ 1023 \<longrightarrow>
            (\<exists>img. returned (generate_app_icon s h) = Inr img) \<and>
            (\<exists>img. returned (generate_foreground_icon s h) = Inr img) \<and>
            (\<exists>img. returned (generate_splash_icon s h) = Inr img))"
proof -
  have app: "\<exists>b r. int_of_product s c_0_7 = Inr b \<and> int_of_product s c_0_075 = Inr r \<and>
                   badge_disk img = Some (b - r, b - r, b + r, b + r) \<and>
                   box_within (b - r, b - r, b + r, b + r) s"
    if H: "icon_image m bg c_0_4 c_0_7 c_0_075 s = Inr img" for m bg img
  proof -
    obtain b r where b: "int_of_product s c_0_7 = Inr b"
      and r: "int_of_product s c_0_075 = Inr r"
      and d: "badge_disk img = Some (b - r, b - r, b + r, b + r)"
      using icon_image_badge [OF H] by blast
    have "0 \<le> r \<and> r \<le> b \<and> b + r \<le> s - 1" using assms b r by (rule app_badge_fits)
    then have "box_within (b - r, b - r, b + r, b + r) s" by (simp add: box_within_def)
    then show ?thesis using b r d by blast
  qed
  have splash: "\<exists>b r. int_of_product s c_0_68 = Inr b \<and> int_of_product s c_0_09 = Inr r \<and>
                   badge_disk img = Some (b - r, b - r, b + r, b + r) \<and>
                   box_within (b - r, b - r, b + r, b + r) s"
    if H: "icon_image m bg c_0_35 c_0_68 c_0_09 s = Inr img" for m bg img
  proof -
    obtain b r where b: "int_of_product s c_0_68 = Inr b"
      and r: "int_of_product s c_0_09 = Inr r"
      and d: "badge_disk img = Some (b - r, b - r, b + r, b + r)"
      using icon_image_badge [OF H] by blast
    have "0 \<le> r \<and> r \<le> b \<and> b + r \<le> s - 1" using assms b r by (rule splash_badge_fits)
    then have "box_within (b - r, b - r, b + r, b + r) s" by (simp add: box_within_def)
    then show ?thesis using b r d by blast
  qed
  have s0: "0 \<le> s" using assms by simp
  have total: "\<exists>img. icon_image m bg c_0_4 c_0_7 c_0_075 s = Inr img"
    "\<exists>img. icon_image m bg c_0_35 c_0_68 c_0_09 s = Inr img" if "s < 2 ^ 1023" for m bg
    using icon_image_defined [OF s0 that] fraction_literals by blast+
  show ?thesis
    unfolding returned_app returned_foreground returned_splash
    using app splash total by blast
qed

theorem badge_disk_inside_canvas_witness:
  "(1::int) \<le> 1024 \<and>
   (\<exists>img. returned (generate_app_icon 1024 []) = Inr img \<and>
          badge_disk img = Some (640, 640, 792, 792) \<and>
          box_within (640, 640, 792, 792) 1024)"
proof -
  have one: "(1::int) \<le> 1024" by simp
  note T = badge_disk_inside_canvas [OF one, of "[]"]
  have "(1024::int) < 2 ^ 1023" by simp
  with T obtain img where img: "returned (generate_app_icon 1024 []) = Inr img" by blast
  with T obtain b r where b: "int_of_product 1024 c_0_7 = Inr b"
    and r: "int_of_product 1024 c_0_075 = Inr r"
    and d: "badge_disk img = Some (b - r, b - r, b + r, b + r)"
    and w: "box_within (b - r, b - r, b + r, b + r) 1024" by blast
  have "int_of_product 1024 c_0_7 = Inr 716" by code_simp
  then have b': "b = 716" using b by simp
  have "int_of_product 1024 c_0_075 = Inr 76" by code_simp
  then have r': "r = 76" using r by simp
  show ?thesis using one img d w unfolding b' r' by auto
qed

subsection \<open>Where the badge centre lands\<close>

text \<open>
  Claim C2 says that for every size \<open>s > 0\<close> the badge of the app icon is centred at
  \<^verbatim>\<open>(round(0.7*s), round(0.7*s))\<close> and that of the splash icon at
  \<^verbatim>\<open>(round(0.68*s), round(0.68*s))\<close>.  The code cuts the products off with
  \<^verbatim>\<open>int(...)\<close> instead.  At \<open>s = 1024\<close> the app icon's badge is centred at
  \<open>(716, 716)\<close> while \<^verbatim>\<open>round(0.7*1024)\<close> is 717, and at \<open>s = 4\<close> the splash icon's
  badge is centred at \<open>(2, 2)\<close> while \<^verbatim>\<open>round(0.68*4)\<close> is 3.
\<close>

theorem badge_centre_round_counterexample:
  "map_sum id badge_centre (returned (generate_app_icon 1024 [])) = Inr (Some (716, 716))
   \<and> spec_badge_centre 1024 c_0_7 = Inr (717, 717)
   \<and> map_sum id badge_centre (returned (generate_splash_icon 4 [])) = Inr (Some (2, 2))
   \<and> spec_badge_centre 4 c_0_68 = Inr (3, 3)"
proof -
  have app: "int_of_product 1024 c_0_4 = Inr 409" "int_of_product 409 c_0_6 = Inr 245"
    "int_of_product 1024 c_0_7 = Inr 716" "int_of_product 1024 c_0_075 = Inr 76"
    "int_of_product 76 c_0_6 = Inr 45"
    by code_simp+
  have splash: "int_of_product 4 c_0_35 = Inr 1" "int_of_product 1 c_0_6 = Inr 0"
    "int_of_product 4 c_0_68 = Inr 2" "int_of_product 4 c_0_09 = Inr 0"
    "int_of_product 0 c_0_6 = Inr 0"
    by code_simp+
  have "map_sum id badge_centre (returned (generate_app_icon 1024 [])) = Inr (Some (716, 716))"
    by (simp add: returned_app icon_image_def app badge_centre_def badge_disk_def
        notebook_ops_def badge_ops_def box_centre_def)
  moreover have "spec_badge_centre 1024 c_0_7 = Inr (717, 717)" by code_simp
  moreover have "map_sum id badge_centre (returned (generate_splash_icon 4 [])) = Inr (Some (2, 2))"
    by (simp add: returned_splash icon_image_def splash badge_centre_def badge_disk_def
        notebook_ops_def badge_ops_def box_centre_def)
  moreover have "spec_badge_centre 4 c_0_68 = Inr (3, 3)" by code_simp
  ultimately show ?thesis by simp
qed

text \<open>
  Claim C2 as amended.  For every size \<open>s > 0\<close> the badge of the app icon is centred at
  \<^verbatim>\<open>(int(0.7*s), int(0.7*s))\<close> and that of the splash icon at
  \<^verbatim>\<open>(int(0.68*s), int(0.68*s))\<close>, where \<^verbatim>\<open>int\<close> cuts the binary64 product off
  towards zero: for sizes below \<open>2 ^ 40\<close> the coordinate \<open>b\<close> satisfies
  \<open>0.7 s - 1 \<le> b \<le> 0.7 s\<close> (\<open>0.68 s - 1 \<le> b \<le> 0.68 s\<close> for the splash icon), so it is
  never rounded up.  Below \<open>2 ^ 1023\<close> both generators return an image.
\<close>

theorem badge_centre_truncated:
  assumes "0 < s"
  shows "(\<forall>img. returned (generate_app_icon s h) = Inr img \<longrightarrow>
            (\<exists>b. int_of_product s c_0_7 = Inr b \<and> badge_centre img = Some (b, b) \<and>
                 (s < 2 ^ 40 \<longrightarrow> 7 * s - 10 \<le> 10 * b \<and> 10 * b \<le> 7 * s)))
       \<and> (\<forall>img. returned (generate_splash_icon s h) = Inr img \<longrightarrow>
            (\<exists>b. int_of_product s c_0_68 = Inr b \<and> badge_centre img = Some (b, b) \<and>
                 (s < 2 ^ 40 \<longrightarrow> 68 * s - 100 \<le> 100 * b \<and> 100 * b \<le> 68 * s)))
       \<and> (s < 2 ^ 1023 \<longrightarrow>
            (\<exists>img. returned (generate_app_icon s h) = Inr img) \<and>
            (\<exists>img. returned (generate_splash_icon s h) = Inr img))"
proof -
  have s0: "0 \<le> s" using assms by simp
  have centre: "\<exists>b. int_of_product s cb = Inr b \<and> badge_centre img = Some (b, b)"
    if H: "icon_image m bg cn cb cs s = Inr img" for m bg cn cb cs img
  proof -
    obtain b r where b: "int_of_product s cb = Inr b"
      and d: "badge_disk img = Some (b - r, b - r, b + r, b + r)"
      using icon_image_badge [OF H] by blast
    have "badge_centre img = Some (b, b)"
      by (simp add: badge_centre_def d box_centre_def)
    then show ?thesis using b by blast
  qed
  have app: "\<exists>b. int_of_product s c_0_7 = Inr b \<and> badge_centre img = Some (b, b) \<and>
                 (s < 2 ^ 40 \<longrightarrow> 7 * s - 10 \<le> 10 * b \<and> 10 * b \<le> 7 * s)"
    if H: "icon_image RGB BG_COLOR c_0_4 c_0_7 c_0_075 s = Inr img" for img
  proof -
    obtain b where b: "int_of_product s c_0_7 = Inr b" and c: "badge_centre img = Some (b, b)"
      using centre [OF H] by blast
    have "s < 2 ^ 40 \<longrightarrow> 7 * s - 10 \<le> 10 * b \<and> 10 * b \<le> 7 * s"
      using product_0_7 [OF s0 _ b] by blast
    then show ?thesis using b c by blast
  qed
  have splash: "\<exists>b. int_of_product s c_0_68 = Inr b \<and> badge_centre img = Some (b, b) \<and>
                 (s < 2 ^ 40 \<longrightarrow> 68 * s - 100 \<le> 100 * b \<and> 100 * b \<le> 68 * s)"
    if H: "icon_image RGBA (C4 0 0 0 0) c_0_35 c_0_68 c_0_09 s = Inr img" for img
  proof -
    obtain b where b: "int_of_product s c_0_68 = Inr b" and c: "badge_centre img = Some (b, b)"
      using centre [OF H] by blast
    have "s < 2 ^ 40 \<longrightarrow> 68 * s - 100 \<le> 100 * b \<and> 100 * b \<le> 68 * s"
      using product_0_68 [OF s0 _ b] by blast
    then show ?thesis using b c by blast
  qed
  have total: "\<exists>img. icon_image m bg c_0_4 c_0_7 c_0_075 s = Inr img"
    "\<exists>img. icon_image m bg c_0_35 c_0_68 c_0_09 s = Inr img" if "s < 2 ^ 1023" for m bg
    using icon_image_defined [OF s0 that] fraction_literals by blast+
  show ?thesis
    unfolding returned_app returned_splash
    using app splash total by blast
qed

theorem badge_centre_truncated_witness:
  "(0::int) < 1024 \<and>
   (\<exists>img. returned (generate_app_icon 1024 []) = Inr img \<and> badge_centre img = Some (716, 716))
   \<and> (\<exists>img. returned (generate_splash_icon 1024 []) = Inr img \<and>
             badge_centre img = Some (696, 696))"
proof -
  have pos: "(0::int) < 1024" by simp
  note T = badge_centre_truncated [OF pos, of "[]"]
  have small: "(1024::int) < 2 ^ 1023" by simp
  from T small obtain img where img: "returned (generate_app_icon 1024 []) = Inr img" by blast
  with T obtain b where b: "int_of_product 1024 c_0_7 = Inr b"
    and c: "badge_centre img = Some (b, b)" by blast
  have "int_of_product 1024 c_0_7 = Inr 716" by code_simp
  then have b': "b = 716" using b by simp
  from T small obtain img' where img': "returned (generate_splash_icon 1024 []) = Inr img'"
    by blast
  with T obtain b2 where b2: "int_of_product 1024 c_0_68 = Inr b2"
    and c2: "badge_centre img' = Some (b2, b2)" by blast
  have "int_of_product 1024 c_0_68 = Inr 696" by code_simp
  then have b2': "b2 = 696" using b2 by simp
  show ?thesis using pos img c img' c2 unfolding b' b2' by auto
qed

subsection \<open>The lock body\<close>

lemma ops_of_add_ops:
  "draw < length h \<Longrightarrow> ops_of draw (add_ops draw os h) = ops_of draw h @ os"
  by (simp add: ops_of_def length_add_ops add_ops_nth)

text \<open>
  Claim C3 says that the white lock-body rectangle has width \<^verbatim>\<open>size/2\<close>, its top edge at
  \<^verbatim>\<open>center_y - size/4\<close> and height \<^verbatim>\<open>0.3*size\<close>.  The top edge is elsewhere: the code
  takes a quarter of the lock height \<^verbatim>\<open>int(size * 0.6)\<close>, not of the badge size.  A
  badge of size 100 drawn at \<open>(200, 200)\<close> on an empty surface has its lock body in the
  box \<open>(175, 185, 225, 215)\<close>, with the top edge at 185, where \<^verbatim>\<open>center_y - size/4\<close>
  is 175: ten pixels apart, which no rounding rule accounts for.
\<close>

theorem lock_body_top_counterexample:
  "map_sum id (ops_of 0)
     (draw_lock_badge 0 200 200 100 (snd (Image_new RGB (400, 400) BG_COLOR [])))
   = Inr [Ellipse (100, 100, 300, 300) (Some GREEN) (Some GREEN),
          Rectangle (175, 185, 225, 215) (Some WHITE) None,
          Arc (184, 154, 216, 185) 180 0 (Some WHITE) 14,
          Ellipse (188, 188, 212, 212) (Some GREEN) None]
   \<and> spec_lock_body_top 200 100 = 175"
  by code_simp

text \<open>
  Claim C3 as amended.  For every badge size \<open>> 0\<close> and badge centre \<open>(x, y)\<close>,
  \<^verbatim>\<open>draw_lock_badge\<close> draws, after the badge circle, a white rectangle without outline
  whose corners are \<open>size div 2\<close> apart horizontally, whose top edge is at
  \<open>y - lock_height div 4\<close> and whose corners are \<open>lock_height div 2\<close> apart vertically,
  where \<open>lock_height\<close> is \<^verbatim>\<open>int(size * 0.6)\<close>; for sizes below \<open>2 ^ 40\<close> that is
  \<open>0.6 size\<close> cut down to an integer, or one less.  So the top edge sits about
  \<open>0.15 size\<close> above the centre and the height is \<open>0.3 size\<close> up to rounding.  Below
  \<open>2 ^ 1023\<close> the routine returns.
\<close>

theorem lock_body_geometry:
  assumes "0 < sz" and "draw < length h"
  shows "(\<forall>h'. draw_lock_badge draw x y sz h = Inr h' \<longrightarrow>
            (\<exists>lock_height.
               int_of_product sz c_0_6 = Inr lock_height \<and>
               ops_of draw h' = ops_of draw h @
                 [Ellipse (x - sz, y - sz, x + sz, y + sz) (Some GREEN) (Some GREEN),
                  Rectangle (x - sz div 2 div 2, y - lock_height div 4,
                             x - sz div 2 div 2 + sz div 2,
                             y - lock_height div 4 + lock_height div 2)
                    (Some WHITE) None,
                  Arc (x - sz div 2 div 3, y - lock_height div 2 - sz div 2 div 3,
                       x + sz div 2 div 3, y - lock_height div 4)
                    180 0 (Some WHITE) (sz div 7),
                  Ellipse (x - sz div 8, y - sz div 8, x + sz div 8, y + sz div 8)
                    (Some GREEN) None] \<and>
               (sz < 2 ^ 40 \<longrightarrow> 6 * sz - 10 \<le> 10 * lock_height \<and> 10 * lock_height \<le> 6 * sz)))
       \<and> (sz < 2 ^ 1023 \<longrightarrow> (\<exists>h'. draw_lock_badge draw x y sz h = Inr h'))"
proof (intro conjI allI impI)
  fix h'
  assume run: "draw_lock_badge draw x y sz h = Inr h'"
  show "\<exists>lock_height.
               int_of_product sz c_0_6 = Inr lock_height \<and>
               ops_of draw h' = ops_of draw h @
                 [Ellipse (x - sz, y - sz, x + sz, y + sz) (Some GREEN) (Some GREEN),
                  Rectangle (x - sz div 2 div 2, y - lock_height div 4,
                             x - sz div 2 div 2 + sz div 2,
                             y - lock_height div 4 + lock_height div 2)
                    (Some WHITE) None,
                  Arc (x - sz div 2 div 3, y - lock_height div 2 - sz div 2 div 3,
                       x + sz div 2 div 3, y - lock_height div 4)
                    180 0 (Some WHITE) (sz div 7),
                  Ellipse (x - sz div 8, y - sz div 8, x + sz div 8, y + sz div 8)
                    (Some GREEN) None] \<and>
               (sz < 2 ^ 40 \<longrightarrow> 6 * sz - 10 \<le> 10 * lock_height \<and> 10 * lock_height \<le> 6 * sz)"
  proof (cases "int_of_product sz c_0_6")
    case (Inl e)
    then show ?thesis using run by (simp add: draw_lock_badge_error)
  next
    case (Inr lh)
    have "h' = add_ops draw (badge_ops x y sz lh) h"
      using run draw_lock_badge_add_ops [OF assms(2) Inr] by simp
    then have ops: "ops_of draw h' = ops_of draw h @ badge_ops x y sz lh"
      using assms(2) by (simp add: ops_of_add_ops)
    have s0: "0 \<le> sz" using assms(1) by simp
    have "sz < 2 ^ 40 \<longrightarrow> 6 * sz - 10 \<le> 10 * lh \<and> 10 * lh \<le> 6 * sz"
      using product_0_6 [OF s0 _ Inr] by blast
    then show ?thesis using Inr ops by (simp add: badge_ops_def)
  qed
next
  assume "sz < 2 ^ 1023"
  then obtain lh where "int_of_product sz c_0_6 = Inr lh"
    using int_of_product_defined [of sz c_0_6] assms(1) by auto
  then show "\<exists>h'. draw_lock_badge draw x y sz h = Inr h'"
    using draw_lock_badge_add_ops [OF assms(2)] by blast
qed

theorem lock_body_geometry_witness:
  "(0::int) < 100 \<and> (0::nat) < length (snd (Image_new RGB (400, 400) BG_COLOR [])) \<and>
   (\<exists>h'. draw_lock_badge 0 200 200 100 (snd (Image_new RGB (400, 400) BG_COLOR [])) = Inr h' \<and>
         ops_of 0 h' =
           [Ellipse (100, 100, 300, 300) (Some GREEN) (Some GREEN),
            Rectangle (175, 185, 225, 215) (Some WHITE) None,
            Arc (184, 154, 216, 185) 180 0 (Some WHITE) 14,
            Ellipse (188, 188, 212, 212) (Some GREEN) None])"
proof -
  define h0 where "h0 = snd (Image_new RGB (400, 400) BG_COLOR [])"
  have pos: "(0::int) < 100" by simp
  have len: "(0::nat) < length h0" by (simp add: h0_def Image_new_def)
  have emp: "ops_of 0 h0 = []" by (simp add: h0_def Image_new_def ops_of_def)
  note T = lock_body_geometry [OF pos len, of 200 200]
  have small: "(100::int) < 2 ^ 1023" by simp
  from T small obtain h' where run: "draw_lock_badge 0 200 200 100 h0 = Inr h'" by blast
  with T obtain lh where lh: "int_of_product 100 c_0_6 = Inr lh"
    and ops: "ops_of 0 h' = ops_of 0 h0 @
                 [Ellipse (200 - 100, 200 - 100, 200 + 100, 200 + 100) (Some GREEN) (Some GREEN),
                  Rectangle (200 - 100 div 2 div 2, 200 - lh div 4,
                             200 - 100 div 2 div 2 + 100 div 2,
                             200 - lh div 4 + lh div 2)
                    (Some WHITE) None,
                  Arc (200 - 100 div 2 div 3, 200 - lh div 2 - 100 div 2 div 3,
                       200 + 100 div 2 div 3, 200 - lh div 4)
                    180 0 (Some WHITE) (100 div 7),
                  Ellipse (200 - 100 div 8, 200 - 100 div 8, 200 + 100 div 8, 200 + 100 div 8)
                    (Some GREEN) None]" by blast
  have "int_of_product 100 c_0_6 = Inr 60" by code_simp
  then have lh': "lh = 60" using lh by simp
  have "ops_of 0 h' =
           [Ellipse (100, 100, 300, 300) (Some GREEN) (Some GREEN),
            Rectangle (175, 185, 225, 215) (Some WHITE) None,
            Arc (184, 154, 216, 185) 180 0 (Some WHITE) 14,
            Ellipse (188, 188, 212, 212) (Some GREEN) None]"
    using ops unfolding lh' emp by simp
  then show ?thesis using pos len run unfolding h0_def by blast
qed

subsection \<open>The page lines of the notebook\<close>

text \<open>
  Claim C7.  For every size \<open>> 0\<close> and centre \<open>(x, y)\<close>, \<^verbatim>\<open>draw_notebook\<close> draws, after
  the body and the spine, exactly three light-gray rectangles without outline, one for
  each \<open>i\<close> in 0, 1, 2.  Each has its left edge \<open>size div 5\<close> to the right of the
  body's left edge \<open>x - size div 2\<close>, its right edge \<^verbatim>\<open>int(size * 0.6)\<close> further right,
  and it reaches \<open>(size div 25) div 2\<close> above and below the line
  \<open>y + (i - 1) * (size div 6)\<close>, so that the first line lies one interval above the
  centre.  For sizes below \<open>2 ^ 40\<close> the width is \<open>0.6 size\<close> cut down to an integer, or
  one less.  Below \<open>2 ^ 1023\<close> the routine returns.
\<close>

theorem notebook_page_lines:
  assumes "0 < sz" and "draw < length h"
  shows "(\<forall>h'. draw_notebook draw x y sz color h = Inr h' \<longrightarrow>
            (\<exists>line_width.
               int_of_product sz c_0_6 = Inr line_width \<and>
               ops_of draw h' = ops_of draw h @
                 [Rectangle (x - sz div 2, y - sz div 2, x + sz div 2, y + sz div 2)
                    (Some color) (Some color),
                  Rectangle (x - sz div 2, y - sz div 2, x - sz div 2 + sz div 10, y + sz div 2)
                    (Some (C3 200 200 200)) (Some (C3 200 200 200))] @
                 map (\<lambda>i. Rectangle
                             (x - sz div 2 + sz div 5,
                              y + (i - 1) * (sz div 6) - sz div 25 div 2,
                              x - sz div 2 + sz div 5 + line_width,
                              y + (i - 1) * (sz div 6) + sz div 25 div 2)
                             (Some (C3 230 230 230)) None)
                   [0, 1, 2] \<and>
               (sz < 2 ^ 40 \<longrightarrow> 6 * sz - 10 \<le> 10 * line_width \<and> 10 * line_width \<le> 6 * sz)))
       \<and> (sz < 2 ^ 1023 \<longrightarrow> (\<exists>h'. draw_notebook draw x y sz color h = Inr h'))"
proof (intro conjI allI impI)
  fix h'
  assume run: "draw_notebook draw x y sz color h = Inr h'"
  show "\<exists>line_width.
               int_of_product sz c_0_6 = Inr line_width \<and>
               ops_of draw h' = ops_of draw h @
                 [Rectangle (x - sz div 2, y - sz div 2, x + sz div 2, y + sz div 2)
                    (Some color) (Some color),
                  Rectangle (x - sz div 2, y - sz div 2, x - sz div 2 + sz div 10, y + sz div 2)
                    (Some (C3 200 200 200)) (Some (C3 200 200 200))] @
                 map (\<lambda>i. Rectangle
                             (x - sz div 2 + sz div 5,
                              y + (i - 1) * (sz div 6) - sz div 25 div 2,
                              x - sz div 2 + sz div 5 + line_width,
                              y + (i - 1) * (sz div 6) + sz div 25 div 2)
                             (Some (C3 230 230 230)) None)
                   [0, 1, 2] \<and>
               (sz < 2 ^ 40 \<longrightarrow> 6 * sz - 10 \<le> 10 * line_width \<and> 10 * line_width \<le> 6 * sz)"
  proof (cases "int_of_product sz c_0_6")
    case (Inl e)
    then show ?thesis using run by (simp add: draw_notebook_error)
  next
    case (Inr lw)
    have "h' = add_ops draw (notebook_ops x y sz color lw) h"
      using run draw_notebook_add_ops [OF assms(2) Inr] by simp
    then have ops: "ops_of draw h' = ops_of draw h @ notebook_ops x y sz color lw"
      using assms(2) by (simp add: ops_of_add_ops)
    have s0: "0 \<le> sz" using assms(1) by simp
    have "sz < 2 ^ 40 \<longrightarrow> 6 * sz - 10 \<le> 10 * lw \<and> 10 * lw \<le> 6 * sz"
      using product_0_6 [OF s0 _ Inr] by blast
    then show ?thesis using Inr ops by (simp add: notebook_ops_def)
  qed
next
  assume "sz < 2 ^ 1023"
  then obtain lw where "int_of_product sz c_0_6 = Inr lw"
    using int_of_product_defined [of sz c_0_6] assms(1) by auto
  then show "\<exists>h'. draw_notebook draw x y sz color h = Inr h'"
    using draw_notebook_add_ops [OF assms(2)] by blast
qed

theorem notebook_page_lines_witness:
  "(0::int) < 409 \<and> (0::nat) < length (snd (Image_new RGB (1024, 1024) BG_COLOR [])) \<and>
   (\<exists>h'. draw_notebook 0 512 512 409 WHITE (snd (Image_new RGB (1024, 1024) BG_COLOR [])) = Inr h' \<and>
         ops_of 0 h' =
           [Rectangle (308, 308, 716, 716) (Some WHITE) (Some WHITE),
            Rectangle (308, 308, 348, 716) (Some (C3 200 200 200)) (Some (C3 200 200 200)),
            Rectangle (389, 436, 634, 452) (Some (C3 230 230 230)) None,
            Rectangle (389, 504, 634, 520) (Some (C3 230 230 230)) None,
            Rectangle (389, 572, 634, 588) (Some (C3 230 230 230)) None])"
proof -
  define h0 where "h0 = snd (Image_new RGB (1024, 1024) BG_COLOR [])"
  have pos: "(0::int) < 409" by simp
  have len: "(0::nat) < length h0" by (simp add: h0_def Image_new_def)
  have emp: "ops_of 0 h0 = []" by (simp add: h0_def Image_new_def ops_of_def)
  note T = notebook_page_lines [OF pos len, of 512 512 WHITE]
  have small: "(409::int) < 2 ^ 1023" by simp
  from T small obtain h' where run: "draw_notebook 0 512 512 409 WHITE h0 = Inr h'" by blast
  with T obtain lw where lw: "int_of_product 409 c_0_6 = Inr lw"
    and ops: "ops_of 0 h' = ops_of 0 h0 @
                 [Rectangle (512 - 409 div 2, 512 - 409 div 2, 512 + 409 div 2, 512 + 409 div 2)
                    (Some WHITE) (Some WHITE),
                  Rectangle (512 - 409 div 2, 512 - 409 div 2, 512 - 409 div 2 + 409 div 10,
                             512 + 409 div 2)
                    (Some (C3 200 200 200)) (Some (C3 200 200 200))] @
                 map (\<lambda>i. Rectangle
                             (512 - 409 div 2 + 409 div 5,
                              512 + (i - 1) * (409 div 6) - 409 div 25 div 2,
                              512 - 409 div 2 + 409 div 5 + lw,
                              512 + (i - 1) * (409 div 6) + 409 div 25 div 2)
                             (Some (C3 230 230 230)) None)
                   [0, 1, 2]" by blast
  have "int_of_product 409 c_0_6 = Inr 245" by code_simp
  then have lw': "lw = 245" using lw by simp
  have "ops_of 0 h' =
           [Rectangle (308, 308, 716, 716) (Some WHITE) (Some WHITE),
            Rectangle (308, 308, 348, 716) (Some (C3 200 200 200)) (Some (C3 200 200 200)),
            Rectangle (389, 436, 634, 452) (Some (C3 230 230 230)) None,
            Rectangle (389, 504, 634, 520) (Some (C3 230 230 230)) None,
            Rectangle (389, 572, 634, 588) (Some (C3 230 230 230)) None]"
    using ops unfolding lw' emp by simp
  then show ?thesis using pos len run unfolding h0_def by blast
qed

subsection \<open>Small badges\<close>

lemma small_lock_heights:
  "int_of_product 1 c_0_6 = Inr 0" "int_of_product 2 c_0_6 = Inr 1"
  "int_of_product 3 c_0_6 = Inr 1" "int_of_product 4 c_0_6 = Inr 2"
  "int_of_product 5 c_0_6 = Inr 3" "int_of_product 6 c_0_6 = Inr 3"
  by code_simp+

lemma small_lock_height:
  assumes "1 \<le> sz" and "sz \<le> 6"
  shows "int_of_product sz c_0_6 = Inr (3 * sz div 5)"
proof -
  have "sz = 1 \<or> sz = 2 \<or> sz = 3 \<or> sz = 4 \<or> sz = 5 \<or> sz = 6" using assms by arith
  then show ?thesis by (auto simp add: small_lock_heights)
qed

text \<open>
  Claim C10.  For every badge size from 1 to 6 the shackle thickness \<open>size div 7\<close> is 0,
  and \<^verbatim>\<open>draw_lock_badge\<close> still makes all four drawing calls: the badge circle, the lock
  body, the shackle arc with \<^verbatim>\<open>width=0\<close>, and the keyhole (whose radius \<open>size div 8\<close> is
  0 as well).  The lock height \<^verbatim>\<open>int(size * 0.6)\<close> is \<open>3 * size div 5\<close> at these sizes.
  What a stroke of width 0 leaves on the surface is decided inside Pillow.
\<close>

theorem small_badge_shackle_width:
  assumes "1 \<le> sz" and "sz \<le> 6" and "draw < length h"
  shows "sz div 7 = 0 \<and>
         (\<exists>h'. draw_lock_badge draw x y sz h = Inr h' \<and>
               ops_of draw h' = ops_of draw h @
                 [Ellipse (x - sz, y - sz, x + sz, y + sz) (Some GREEN) (Some GREEN),
                  Rectangle (x - sz div 2 div 2, y - (3 * sz div 5) div 4,
                             x - sz div 2 div 2 + sz div 2,
                             y - (3 * sz div 5) div 4 + (3 * sz div 5) div 2)
                    (Some WHITE) None,
                  Arc (x - sz div 2 div 3, y - (3 * sz div 5) div 2 - sz div 2 div 3,
                       x + sz div 2 div 3, y - (3 * sz div 5) div 4)
                    180 0 (Some WHITE) 0,
                  Ellipse (x, y, x, y) (Some GREEN) None])"
proof -
  have t: "sz div 7 = 0" and k: "sz div 8 = 0" using assms(1,2) by simp_all
  have lh: "int_of_product sz c_0_6 = Inr (3 * sz div 5)"
    using assms(1,2) by (rule small_lock_height)
  have run: "draw_lock_badge draw x y sz h = Inr (add_ops draw (badge_ops x y sz (3 * sz div 5)) h)"
    using assms(3) lh by (rule draw_lock_badge_add_ops)
  have "ops_of draw (add_ops draw (badge_ops x y sz (3 * sz div 5)) h)
        = ops_of draw h @ badge_ops x y sz (3 * sz div 5)"
    using assms(3) by (rule ops_of_add_ops)
  then show ?thesis using run t k by (simp add: badge_ops_def)
qed

theorem small_badge_shackle_width_witness:
  "(1::int) \<le> 6 \<and> (6::int) \<le> 6 \<and>
   (0::nat) < length (snd (Image_new RGB (400, 400) BG_COLOR [])) \<and>
   (\<exists>h'. draw_lock_badge 0 200 200 6 (snd (Image_new RGB (400, 400) BG_COLOR [])) = Inr h' \<and>
         ops_of 0 h' =
           [Ellipse (194, 194, 206, 206) (Some GREEN) (Some GREEN),
            Rectangle (199, 200, 202, 201) (Some WHITE) None,
            Arc (199, 198, 201, 200) 180 0 (Some WHITE) 0,
            Ellipse (200, 200, 200, 200) (Some GREEN) None])"
proof -
  define h0 where "h0 = snd (Image_new RGB (400, 400) BG_COLOR [])"
  have lo: "(1::int) \<le> 6" and hi: "(6::int) \<le> 6" by simp_all
  have len: "(0::nat) < length h0" by (simp add: h0_def Image_new_def)
  have emp: "ops_of 0 h0 = []" by (simp add: h0_def Image_new_def ops_of_def)
  from small_badge_shackle_width [OF lo hi len, of 200 200]
  obtain h' where run: "draw_lock_badge 0 200 200 6 h0 = Inr h'"
    and ops: "ops_of 0 h' = ops_of 0 h0 @
                 [Ellipse (200 - 6, 200 - 6, 200 + 6, 200 + 6) (Some GREEN) (Some GREEN),
                  Rectangle (200 - 6 div 2 div 2, 200 - (3 * 6 div 5) div 4,
                             200 - 6 div 2 div 2 + 6 div 2,
                             200 - (3 * 6 div 5) div 4 + (3 * 6 div 5) div 2)
                    (Some WHITE) None,
                  Arc (200 - 6 div 2 div 3, 200 - (3 * 6 div 5) div 2 - 6 div 2 div 3,
                       200 + 6 div 2 div 3, 200 - (3 * 6 div 5) div 4)
                    180 0 (Some WHITE) 0,
                  Ellipse (200, 200, 200, 200) (Some GREEN) None]" by blast
  have "ops_of 0 h' =
           [Ellipse (194, 194, 206, 206) (Some GREEN) (Some GREEN),
            Rectangle (199, 200, 202, 201) (Some WHITE) None,
            Arc (199, 198, 201, 200) 180 0 (Some WHITE) 0,
            Ellipse (200, 200, 200, 200) (Some GREEN) None]"
    using ops unfolding emp by simp
  then show ?thesis using lo hi len run unfolding h0_def by blast
qed

subsection \<open>The foreground icon and the app icon\<close>

text \<open>
  Claim C5.  For every size \<open>s > 0\<close>, \<^verbatim>\<open>generate_foreground_icon\<close> returns what
  \<^verbatim>\<open>generate_app_icon\<close> returns with nothing but the canvas changed: the same size and
  the same drawing calls with the same coordinates and colours, on an \<^verbatim>\<open>RGBA\<close> surface
  filled with \<open>(0, 0, 0, 0)\<close> instead of an \<^verbatim>\<open>RGB\<close> surface filled with the background
  colour (and the same exception when the size is too large for a float).  In both the
  notebook body is the square around the canvas centre \<open>(s div 2, s div 2)\<close> that
  reaches \<^verbatim>\<open>int(0.4*s)\<close>\<open> div 2\<close> to each side, and the badge disk has the centre
  \<^verbatim>\<open>(int(0.7*s), int(0.7*s))\<close> and the radius \<^verbatim>\<open>int(0.075*s)\<close>.
\<close>

theorem foreground_same_drawing:
  assumes "0 < s"
  shows "returned (generate_foreground_icon s h) =
     map_sum id (\<lambda>img. img\<lparr>im_mode := RGBA, im_fill := C4 0 0 0 0\<rparr>)
       (returned (generate_app_icon s h))
   \<and> (\<forall>img. returned (generate_app_icon s h) = Inr img \<longrightarrow>
         im_mode img = RGB \<and> im_fill img = BG_COLOR \<and> im_size img = (s, s) \<and>
         (\<exists>nb b r. int_of_product s c_0_4 = Inr nb \<and> int_of_product s c_0_7 = Inr b \<and>
                   int_of_product s c_0_075 = Inr r \<and>
                   take 1 (im_ops img) =
                     [Rectangle (s div 2 - nb div 2, s div 2 - nb div 2,
                                 s div 2 + nb div 2, s div 2 + nb div 2)
                        (Some WHITE) (Some WHITE)] \<and>
                   badge_disk img = Some (b - r, b - r, b + r, b + r)))"
proof (intro conjI allI impI)
  show "returned (generate_foreground_icon s h) =
     map_sum id (\<lambda>img. img\<lparr>im_mode := RGBA, im_fill := C4 0 0 0 0\<rparr>)
       (returned (generate_app_icon s h))"
    unfolding returned_app returned_foreground
    by (simp add: icon_image_def split: sum.splits)
next
  fix img
  assume "returned (generate_app_icon s h) = Inr img"
  then have H: "icon_image RGB BG_COLOR c_0_4 c_0_7 c_0_075 s = Inr img"
    by (simp add: returned_app)
  from icon_image_Inr [OF H] obtain nb lw b r lh
    where nb: "int_of_product s c_0_4 = Inr nb"
      and b: "int_of_product s c_0_7 = Inr b" and r: "int_of_product s c_0_075 = Inr r"
      and img: "img = \<lparr>im_mode = RGB, im_size = (s, s), im_fill = BG_COLOR,
                  im_ops = notebook_ops (s div 2) (s div 2) nb WHITE lw @ badge_ops b b r lh\<rparr>"
    by blast
  show "im_mode img = RGB" "im_fill img = BG_COLOR" "im_size img = (s, s)"
    by (simp_all add: img)
  have "take 1 (im_ops img) =
                     [Rectangle (s div 2 - nb div 2, s div 2 - nb div 2,
                                 s div 2 + nb div 2, s div 2 + nb div 2)
                        (Some WHITE) (Some WHITE)]"
    by (simp add: img notebook_ops_def)
  moreover have "badge_disk img = Some (b - r, b - r, b + r, b + r)"
    unfolding img by (rule badge_disk_ops)
  ultimately show "\<exists>nb b r. int_of_product s c_0_4 = Inr nb \<and> int_of_product s c_0_7 = Inr b \<and>
                   int_of_product s c_0_075 = Inr r \<and>
                   take 1 (im_ops img) =
                     [Rectangle (s div 2 - nb div 2, s div 2 - nb div 2,
                                 s div 2 + nb div 2, s div 2 + nb div 2)
                        (Some WHITE) (Some WHITE)] \<and>
                   badge_disk img = Some (b - r, b - r, b + r, b + r)"
    using nb b r by blast
qed

theorem foreground_same_drawing_witness:
  "(0::int) < 1024 \<and>
   (\<exists>img. returned (generate_app_icon 1024 []) = Inr img \<and>
         returned (generate_foreground_icon 1024 []) =
           Inr (img\<lparr>im_mode := RGBA, im_fill := C4 0 0 0 0\<rparr>) \<and>
         im_mode img = RGB \<and> im_fill img = BG_COLOR \<and> im_size img = (1024, 1024) \<and>
         take 1 (im_ops img) = [Rectangle (308, 308, 716, 716) (Some WHITE) (Some WHITE)] \<and>
         badge_disk img = Some (640, 640, 792, 792))"
proof -
  have pos: "(0::int) < 1024" by simp
  have "\<exists>img. icon_image RGB BG_COLOR c_0_4 c_0_7 c_0_075 1024 = Inr img"
    by (rule icon_image_defined) (simp_all add: fraction_literals)
  then obtain img where img: "returned (generate_app_icon 1024 []) = Inr img"
    unfolding returned_app ..
  note T = foreground_same_drawing [OF pos, of "[]"]
  have fg: "returned (generate_foreground_icon 1024 []) =
           Inr (img\<lparr>im_mode := RGBA, im_fill := C4 0 0 0 0\<rparr>)"
    using T img by simp
  from T img obtain nb b r where nb: "int_of_product 1024 c_0_4 = Inr nb"
    and b: "int_of_product 1024 c_0_7 = Inr b" and r: "int_of_product 1024 c_0_075 = Inr r"
    and rest: "im_mode img = RGB" "im_fill img = BG_COLOR" "im_size img = (1024, 1024)"
      "take 1 (im_ops img) =
                     [Rectangle (1024 div 2 - nb div 2, 1024 div 2 - nb div 2,
                                 1024 div 2 + nb div 2, 1024 div 2 + nb div 2)
                        (Some WHITE) (Some WHITE)]"
      "badge_disk img = Some (b - r, b - r, b + r, b + r)"
    by blast
  have "int_of_product 1024 c_0_4 = Inr 409" "int_of_product 1024 c_0_7 = Inr 716"
    "int_of_product 1024 c_0_075 = Inr 76" by code_simp+
  then have v: "nb = 409" "b = 716" "r = 76" using nb b r by simp_all
  show ?thesis using pos img fg rest unfolding v by simp
qed

subsection \<open>Transparency\<close>

lemma fold_untouched:
  "\<forall>op \<in> set ops. R op p = None \<Longrightarrow>
     fold (\<lambda>op c. case R op p of None \<Rightarrow> c | Some col \<Rightarrow> ink m col) ops c = c"
  by (induction ops arbitrary: c) simp_all

lemma fold_ink:
  "\<exists>col. fold (\<lambda>op c. case R op p of None \<Rightarrow> c | Some col \<Rightarrow> ink m col) ops (ink m bg)
           = ink m col"
proof (induction ops arbitrary: bg)
  case Nil
  show ?case by auto
next
  case (Cons op ops)
  show ?case
  proof (cases "R op p")
    case None
    then show ?thesis using Cons [of bg] by simp
  next
    case (Some col)
    then show ?thesis using Cons [of col] by simp
  qed
qed

lemma alpha_ink_RGB: "alpha (ink RGB c) = None"
  by (cases c) simp_all

lemma alpha_ink_RGBA: "\<exists>a. alpha (ink RGBA c) = Some a"
  by (cases c) simp_all

lemma getpixel_RGB:
  assumes "im_mode img = RGB" and "getpixel R img p = Some c"
  shows "alpha c = None"
proof -
  obtain col where "fold (\<lambda>op c. case R op p of None \<Rightarrow> c | Some col \<Rightarrow> ink (im_mode img) col)
                      (im_ops img) (ink (im_mode img) (im_fill img)) = ink (im_mode img) col"
    using fold_ink [where R = R and p = p and m = "im_mode img" and ops = "im_ops img"
        and bg = "im_fill img"]
    by blast
  then have "c = ink (im_mode img) col"
    using assms(2) by (simp add: getpixel_def split: if_splits)
  then have "c = ink RGB col" using assms(1) by simp
  then show ?thesis by (simp add: alpha_ink_RGB)
qed

lemma getpixel_RGBA:
  assumes "im_mode img = RGBA" and "getpixel R img p = Some c"
  shows "\<exists>a. alpha c = Some a"
proof -
  obtain col where "fold (\<lambda>op c. case R op p of None \<Rightarrow> c | Some col \<Rightarrow> ink (im_mode img) col)
                      (im_ops img) (ink (im_mode img) (im_fill img)) = ink (im_mode img) col"
    using fold_ink [where R = R and p = p and m = "im_mode img" and ops = "im_ops img"
        and bg = "im_fill img"]
    by blast
  then have "c = ink (im_mode img) col"
    using assms(2) by (simp add: getpixel_def split: if_splits)
  then have "c = ink RGBA col" using assms(1) by simp
  then show ?thesis by (simp add: alpha_ink_RGBA)
qed

lemma getpixel_untouched:
  assumes "in_image img p" and "\<forall>op \<in> set (im_ops img). R op p = None"
  shows "getpixel R img p = Some (ink (im_mode img) (im_fill img))"
  using assms by (simp add: getpixel_def fold_untouched)

lemma icon_image_canvas:
  assumes "icon_image m bg cn cb cs s = Inr img"
  shows "im_mode img = m \<and> im_fill img = bg \<and> im_size img = (s, s)"
  using icon_image_Inr [OF assms] by auto

lemma div_bounds:
  fixes n k :: int
  assumes "0 < k"
  shows "k * (n div k) \<le> n \<and> n < k * (n div k) + k"
proof -
  have "k * (n div k) + n mod k = n" by simp
  moreover have "0 \<le> n mod k" and "n mod k < k" using assms by simp_all
  ultimately show ?thesis by linarith
qed

lemma in_box_mono:
  assumes "in_box (x0, y0, x1, y1) p"
    and "x0' \<le> x0" and "x1 \<le> x1'" and "y0' \<le> y0" and "y1 \<le> y1'"
  shows "in_box (x0', y0', x1', y1') p"
  using assms by (simp add: in_box_def)

lemma product_0_6_le:
  assumes "0 \<le> n" and "int_of_product n c_0_6 = Inr v"
  shows "0 \<le> v \<and> 10 * v \<le> 7 * n"
proof -
  have m: "0 \<le> mant c_0_6" by (simp add: c_0_6_def)
  note B = int_of_product_bounds [OF assms(1) m assms(2)]
  have up: "v * 2 ^ 159 \<le> 0x13333333333333 * n * (2 ^ 53 + 1) ^ 2"
    using B(2) by (simp add: c_0_6_def)
  have "10 * v \<le> 7 * n" using up assms(1) by simp
  then show ?thesis using B(1) by simp
qed

lemma notebook_ops_inside:
  assumes nb: "0 \<le> nb" and lw: "int_of_product nb c_0_6 = Inr lw"
    and op: "op \<in> set (notebook_ops cx cy nb color lw)"
    and p: "in_box (op_box op) p"
  shows "in_box (cx - nb div 2, cy - nb div 2, cx + nb div 2, cy + nb div 2) p"
proof -
  define h2 where "h2 = nb div 2"
  define d5 where "d5 = nb div 5"
  define d6 where "d6 = nb div 6"
  define d10 where "d10 = nb div 10"
  define d25 where "d25 = nb div 25"
  define e where "e = d25 div 2"
  have lwb: "0 \<le> lw" "10 * lw \<le> 7 * nb" using product_0_6_le [OF nb lw] by simp_all
  have h2b: "2 * h2 \<le> nb" "nb < 2 * h2 + 2" using div_bounds [of 2 nb] by (simp_all add: h2_def)
  have d5b: "5 * d5 \<le> nb" "nb < 5 * d5 + 5" using div_bounds [of 5 nb] by (simp_all add: d5_def)
  have d6b: "6 * d6 \<le> nb" "nb < 6 * d6 + 6" using div_bounds [of 6 nb] by (simp_all add: d6_def)
  have d10b: "10 * d10 \<le> nb" "nb < 10 * d10 + 10"
    using div_bounds [of 10 nb] by (simp_all add: d10_def)
  have d25b: "25 * d25 \<le> nb" "nb < 25 * d25 + 25"
    using div_bounds [of 25 nb] by (simp_all add: d25_def)
  have eb: "2 * e \<le> d25" "d25 < 2 * e + 2" using div_bounds [of 2 d25] by (simp_all add: e_def)
  have nn: "0 \<le> h2" "0 \<le> d5" "0 \<le> d6" "0 \<le> d10" "0 \<le> d25" "0 \<le> e"
    using nb h2b d5b d6b d10b d25b eb by linarith+
  have a1: "d5 + lw \<le> 2 * h2" using nb lwb h2b d5b nn by linarith
  have a2: "d6 + e \<le> h2" using nb h2b d6b d25b eb nn by linarith
  have a3: "d10 \<le> 2 * h2" using nb h2b d10b nn by linarith
  from op have "op = Rectangle (cx - h2, cy - h2, cx + h2, cy + h2) (Some color) (Some color)
      \<or> op = Rectangle (cx - h2, cy - h2, cx - h2 + d10, cy + h2)
             (Some (C3 200 200 200)) (Some (C3 200 200 200))
      \<or> op = Rectangle (cx - h2 + d5, cy - d6 - e, cx - h2 + d5 + lw, cy - d6 + e)
             (Some (C3 230 230 230)) None
      \<or> op = Rectangle (cx - h2 + d5, cy - e, cx - h2 + d5 + lw, cy + e)
             (Some (C3 230 230 230)) None
      \<or> op = Rectangle (cx - h2 + d5, cy + d6 - e, cx - h2 + d5 + lw, cy + d6 + e)
             (Some (C3 230 230 230)) None"
    by (auto simp add: notebook_ops_def h2_def d5_def d6_def d10_def d25_def e_def)
  then have "in_box (cx - h2, cy - h2, cx + h2, cy + h2) p"
  proof (elim disjE)
    assume "op = Rectangle (cx - h2, cy - h2, cx + h2, cy + h2) (Some color) (Some color)"
    then show ?thesis using p by simp
  next
    assume "op = Rectangle (cx - h2, cy - h2, cx - h2 + d10, cy + h2)
             (Some (C3 200 200 200)) (Some (C3 200 200 200))"
    then have "in_box (cx - h2, cy - h2, cx - h2 + d10, cy + h2) p" using p by simp
    then show ?thesis by (rule in_box_mono) (use a3 in linarith)+
  next
    assume "op = Rectangle (cx - h2 + d5, cy - d6 - e, cx - h2 + d5 + lw, cy - d6 + e)
             (Some (C3 230 230 230)) None"
    then have "in_box (cx - h2 + d5, cy - d6 - e, cx - h2 + d5 + lw, cy - d6 + e) p"
      using p by simp
    then show ?thesis by (rule in_box_mono) (use a1 a2 nn in linarith)+
  next
    assume "op = Rectangle (cx - h2 + d5, cy - e, cx - h2 + d5 + lw, cy + e)
             (Some (C3 230 230 230)) None"
    then have "in_box (cx - h2 + d5, cy - e, cx - h2 + d5 + lw, cy + e) p" using p by simp
    then show ?thesis by (rule in_box_mono) (use a1 a2 nn in linarith)+
  next
    assume "op = Rectangle (cx - h2 + d5, cy + d6 - e, cx - h2 + d5 + lw, cy + d6 + e)
             (Some (C3 230 230 230)) None"
    then have "in_box (cx - h2 + d5, cy + d6 - e, cx - h2 + d5 + lw, cy + d6 + e) p"
      using p by simp
    then show ?thesis by (rule in_box_mono) (use a1 a2 nn in linarith)+
  qed
  then show ?thesis by (simp add: h2_def)
qed

lemma badge_ops_inside:
  assumes r: "0 \<le> r" and lh: "int_of_product r c_0_6 = Inr lh"
    and op: "op \<in> set (badge_ops bx by r lh)"
    and p: "in_box (op_box op) p"
  shows "in_box (bx - r, by - r, bx + r, by + r) p"
proof -
  define v where "v = r div 2"
  define w where "w = v div 2"
  define t where "t = v div 3"
  define k where "k = r div 8"
  define u where "u = lh div 2"
  define q where "q = lh div 4"
  have lhb: "0 \<le> lh" "10 * lh \<le> 7 * r" using product_0_6_le [OF r lh] by simp_all
  have vb: "2 * v \<le> r" "r < 2 * v + 2" using div_bounds [of 2 r] by (simp_all add: v_def)
  have wb: "2 * w \<le> v" "v < 2 * w + 2" using div_bounds [of 2 v] by (simp_all add: w_def)
  have tb: "3 * t \<le> v" "v < 3 * t + 3" using div_bounds [of 3 v] by (simp_all add: t_def)
  have kb: "8 * k \<le> r" "r < 8 * k + 8" using div_bounds [of 8 r] by (simp_all add: k_def)
  have ub: "2 * u \<le> lh" "lh < 2 * u + 2" using div_bounds [of 2 lh] by (simp_all add: u_def)
  have qb: "4 * q \<le> lh" "lh < 4 * q + 4" using div_bounds [of 4 lh] by (simp_all add: q_def)
  have nn: "0 \<le> v" "0 \<le> w" "0 \<le> t" "0 \<le> k" "0 \<le> u" "0 \<le> q"
    using r lhb vb wb tb kb ub qb by linarith+
  have le: "v \<le> r" "w \<le> r" "t \<le> r" "k \<le> r" "u \<le> r" "q \<le> r" "u + t \<le> r"
    using r lhb vb wb tb kb ub qb nn by linarith+
  from op have "op = Ellipse (bx - r, by - r, bx + r, by + r) (Some GREEN) (Some GREEN)
      \<or> op = Rectangle (bx - w, by - q, bx - w + v, by - q + u) (Some WHITE) None
      \<or> op = Arc (bx - t, by - u - t, bx + t, by - q) 180 0 (Some WHITE) (r div 7)
      \<or> op = Ellipse (bx - k, by - k, bx + k, by + k) (Some GREEN) None"
    by (auto simp add: badge_ops_def v_def w_def t_def k_def u_def q_def)
  then show ?thesis
  proof (elim disjE)
    assume "op = Ellipse (bx - r, by - r, bx + r, by + r) (Some GREEN) (Some GREEN)"
    then show ?thesis using p by simp
  next
    assume "op = Rectangle (bx - w, by - q, bx - w + v, by - q + u) (Some WHITE) None"
    then have "in_box (bx - w, by - q, bx - w + v, by - q + u) p" using p by simp
    then show ?thesis by (rule in_box_mono) (use le nn in linarith)+
  next
    assume "op = Arc (bx - t, by - u - t, bx + t, by - q) 180 0 (Some WHITE) (r div 7)"
    then have "in_box (bx - t, by - u - t, bx + t, by - q) p" using p by simp
    then show ?thesis by (rule in_box_mono) (use le nn in linarith)+
  next
    assume "op = Ellipse (bx - k, by - k, bx + k, by + k) (Some GREEN) None"
    then have "in_box (bx - k, by - k, bx + k, by + k) p" using p by simp
    then show ?thesis by (rule in_box_mono) (use le nn in linarith)+
  qed
qed

lemma icon_image_outside:
  assumes s: "0 \<le> s" and cn: "fraction cn" and cs: "fraction cs"
    and H: "icon_image m bg cn cb cs s = Inr img"
    and R: "\<forall>op p. R op p \<noteq> None \<longrightarrow> in_box (op_box op) p"
  shows "\<exists>body disk.
           take 1 (im_ops img) = [Rectangle body (Some WHITE) (Some WHITE)] \<and>
           badge_disk img = Some disk \<and>
           (\<forall>p. in_image img p \<and> \<not> in_box body p \<and> \<not> in_box disk p \<longrightarrow>
                getpixel R img p = Some (ink m bg))"
proof -
  from icon_image_Inr [OF H] obtain nb lw b r lh
    where nb: "int_of_product s cn = Inr nb" and lw: "int_of_product nb c_0_6 = Inr lw"
      and r: "int_of_product s cs = Inr r" and lh: "int_of_product r c_0_6 = Inr lh"
      and img: "img = \<lparr>im_mode = m, im_size = (s, s), im_fill = bg,
                  im_ops = notebook_ops (s div 2) (s div 2) nb WHITE lw @ badge_ops b b r lh\<rparr>"
    by blast
  define body where "body = (s div 2 - nb div 2, s div 2 - nb div 2, s div 2 + nb div 2, s div 2 + nb div 2)"
  define disk where "disk = (b - r, b - r, b + r, b + r)"
  have nb0: "0 \<le> nb" using int_of_product_le [OF s cn nb] by simp
  have r0: "0 \<le> r" using int_of_product_le [OF s cs r] by simp
  have first: "take 1 (im_ops img) = [Rectangle body (Some WHITE) (Some WHITE)]"
    by (simp add: img notebook_ops_def body_def)
  have disk: "badge_disk img = Some disk"
    unfolding img disk_def by (rule badge_disk_ops)
  have "getpixel R img p = Some (ink m bg)"
    if p: "in_image img p" "\<not> in_box body p" "\<not> in_box disk p" for p
  proof -
    have "R op p = None" if op: "op \<in> set (im_ops img)" for op
    proof (rule ccontr)
      assume "R op p \<noteq> None"
      then have inside: "in_box (op_box op) p" using R by blast
      from op have "op \<in> set (notebook_ops (s div 2) (s div 2) nb WHITE lw)
          \<or> op \<in> set (badge_ops b b r lh)"
        by (simp add: img)
      then show False
      proof
        assume "op \<in> set (notebook_ops (s div 2) (s div 2) nb WHITE lw)"
        then have "in_box body p"
          unfolding body_def using inside by (rule notebook_ops_inside [OF nb0 lw])
        then show False using p(2) by simp
      next
        assume "op \<in> set (badge_ops b b r lh)"
        then have "in_box disk p"
          unfolding disk_def using inside by (rule badge_ops_inside [OF r0 lh])
        then show False using p(3) by simp
      qed
    qed
    then have "\<forall>op \<in> set (im_ops img). R op p = None" by blast
    then have "getpixel R img p = Some (ink (im_mode img) (im_fill img))"
      using p(1) by (simp add: getpixel_untouched)
    then show ?thesis by (simp add: img)
  qed
  then show ?thesis using first disk by blast
qed

text \<open>
  Claim C6.  The image returned by \<^verbatim>\<open>generate_app_icon\<close> has mode \<^verbatim>\<open>RGB\<close>: none of
  its pixels has an alpha band, so all are opaque.  The images returned by
  \<^verbatim>\<open>generate_foreground_icon\<close> and \<^verbatim>\<open>generate_splash_icon\<close> have mode \<^verbatim>\<open>RGBA\<close>: each
  pixel has an alpha band, and every pixel of the canvas that none of the drawing calls
  for the notebook and the badge touches is \<open>(0, 0, 0, 0)\<close>, with alpha 0.  This holds
  for any rasteriser \<open>R\<close> and every size \<open>s > 0\<close>.  When the rasteriser paints no
  pixel outside the bounding box of a call, the transparent pixels include all those
  that lie neither in the square of the notebook body nor in the bounding square of the
  badge disk.  Below \<open>2 ^ 1023\<close> each of the three generators does return an image.
\<close>

theorem transparency_of_images:
  assumes "0 < s"
  shows "(\<forall>img. returned (generate_app_icon s h) = Inr img \<longrightarrow>
            im_mode img = RGB \<and> (\<forall>p c. getpixel R img p = Some c \<longrightarrow> alpha c = None))
       \<and> (\<forall>g \<in> {generate_foreground_icon, generate_splash_icon}.
            \<forall>img. returned (g s h) = Inr img \<longrightarrow>
              im_mode img = RGBA \<and>
              (\<forall>p c. getpixel R img p = Some c \<longrightarrow> (\<exists>a. alpha c = Some a)) \<and>
              (\<forall>p. in_image img p \<and> (\<forall>op \<in> set (im_ops img). R op p = None) \<longrightarrow>
                   getpixel R img p = Some (C4 0 0 0 0) \<and> alpha (C4 0 0 0 0) = Some 0) \<and>
              ((\<forall>op p. R op p \<noteq> None \<longrightarrow> in_box (op_box op) p) \<longrightarrow>
                 (\<exists>body disk.
                    take 1 (im_ops img) = [Rectangle body (Some WHITE) (Some WHITE)] \<and>
                    badge_disk img = Some disk \<and>
                    (\<forall>p. in_image img p \<and> \<not> in_box body p \<and> \<not> in_box disk p \<longrightarrow>
                         getpixel R img p = Some (C4 0 0 0 0)))))
       \<and> (s < 2 ^ 1023 \<longrightarrow>
            (\<exists>img. returned (generate_app_icon s h) = Inr img) \<and>
            (\<exists>img. returned (generate_foreground_icon s h) = Inr img) \<and>
            (\<exists>img. returned (generate_splash_icon s h) = Inr img))"
proof -
  have s0: "0 \<le> s" using assms by simp
  have total: "\<exists>img. icon_image m bg c_0_4 c_0_7 c_0_075 s = Inr img"
    "\<exists>img. icon_image m bg c_0_35 c_0_68 c_0_09 s = Inr img" if "s < 2 ^ 1023" for m bg
    using icon_image_defined [OF s0 that] fraction_literals by blast+
  have opaque: "im_mode img = RGB \<and> (\<forall>p c. getpixel R img p = Some c \<longrightarrow> alpha c = None)"
    if H: "icon_image RGB bg cn cb cs s = Inr img" for bg cn cb cs img
    using icon_image_canvas [OF H] getpixel_RGB [of img R] by blast
  have clear: "im_mode img = RGBA \<and>
        (\<forall>p c. getpixel R img p = Some c \<longrightarrow> (\<exists>a. alpha c = Some a)) \<and>
        (\<forall>p. in_image img p \<and> (\<forall>op \<in> set (im_ops img). R op p = None) \<longrightarrow>
             getpixel R img p = Some (C4 0 0 0 0) \<and> alpha (C4 0 0 0 0) = Some 0) \<and>
        ((\<forall>op p. R op p \<noteq> None \<longrightarrow> in_box (op_box op) p) \<longrightarrow>
                 (\<exists>body disk.
                    take 1 (im_ops img) = [Rectangle body (Some WHITE) (Some WHITE)] \<and>
                    badge_disk img = Some disk \<and>
                    (\<forall>p. in_image img p \<and> \<not> in_box body p \<and> \<not> in_box disk p \<longrightarrow>
                         getpixel R img p = Some (C4 0 0 0 0))))"
    if H: "icon_image RGBA (C4 0 0 0 0) cn cb cs s = Inr img"
      and cn: "fraction cn" and cs: "fraction cs" for cn cb cs img
  proof -
    have c: "im_mode img = RGBA" "im_fill img = C4 0 0 0 0"
      using icon_image_canvas [OF H] by simp_all
    have "getpixel R img p = Some (C4 0 0 0 0)"
      if "in_image img p" "\<forall>op \<in> set (im_ops img). R op p = None" for p
      using getpixel_untouched [of img p R] that by (simp add: c)
    moreover have "\<exists>body disk.
                    take 1 (im_ops img) = [Rectangle body (Some WHITE) (Some WHITE)] \<and>
                    badge_disk img = Some disk \<and>
                    (\<forall>p. in_image img p \<and> \<not> in_box body p \<and> \<not> in_box disk p \<longrightarrow>
                         getpixel R img p = Some (C4 0 0 0 0))"
      if R: "\<forall>op p. R op p \<noteq> None \<longrightarrow> in_box (op_box op) p"
      using icon_image_outside [OF s0 cn cs H R] by simp
    ultimately show ?thesis using c(1) getpixel_RGBA [of img R] by auto
  qed
  have fg: "icon_image RGBA (C4 0 0 0 0) c_0_4 c_0_7 c_0_075 s = Inr img \<Longrightarrow>
      im_mode img = RGBA \<and>
        (\<forall>p c. getpixel R img p = Some c \<longrightarrow> (\<exists>a. alpha c = Some a)) \<and>
        (\<forall>p. in_image img p \<and> (\<forall>op \<in> set (im_ops img). R op p = None) \<longrightarrow>
             getpixel R img p = Some (C4 0 0 0 0) \<and> alpha (C4 0 0 0 0) = Some 0) \<and>
        ((\<forall>op p. R op p \<noteq> None \<longrightarrow> in_box (op_box op) p) \<longrightarrow>
                 (\<exists>body disk.
                    take 1 (im_ops img) = [Rectangle body (Some WHITE) (Some WHITE)] \<and>
                    badge_disk img = Some disk \<and>
                    (\<forall>p. in_image img p \<and> \<not> in_box body p \<and> \<not> in_box disk p \<longrightarrow>
                         getpixel R img p = Some (C4 0 0 0 0))))" for img
    by (rule clear [OF _ fraction_literals(2) fraction_literals(4)])
  have sp: "icon_image RGBA (C4 0 0 0 0) c_0_35 c_0_68 c_0_09 s = Inr img \<Longrightarrow>
      im_mode img = RGBA \<and>
        (\<forall>p c. getpixel R img p = Some c \<longrightarrow> (\<exists>a. alpha c = Some a)) \<and>
        (\<forall>p. in_image img p \<and> (\<forall>op \<in> set (im_ops img). R op p = None) \<longrightarrow>
             getpixel R img p = Some (C4 0 0 0 0) \<and> alpha (C4 0 0 0 0) = Some 0) \<and>
        ((\<forall>op p. R op p \<noteq> None \<longrightarrow> in_box (op_box op) p) \<longrightarrow>
                 (\<exists>body disk.
                    take 1 (im_ops img) = [Rectangle body (Some WHITE) (Some WHITE)] \<and>
                    badge_disk img = Some disk \<and>
                    (\<forall>p. in_image img p \<and> \<not> in_box body p \<and> \<not> in_box disk p \<longrightarrow>
                         getpixel R img p = Some (C4 0 0 0 0))))" for img
    by (rule clear [OF _ fraction_literals(5) fraction_literals(7)])
  have part1: "(\<forall>img. returned (generate_app_icon s h) = Inr img \<longrightarrow>
            im_mode img = RGB \<and> (\<forall>p c. getpixel R img p = Some c \<longrightarrow> alpha c = None))
       \<and> (\<forall>g \<in> {generate_foreground_icon, generate_splash_icon}.
            \<forall>img. returned (g s h) = Inr img \<longrightarrow>
              im_mode img = RGBA \<and>
              (\<forall>p c. getpixel R img p = Some c \<longrightarrow> (\<exists>a. alpha c = Some a)) \<and>
              (\<forall>p. in_image img p \<and> (\<forall>op \<in> set (im_ops img). R op p = None) \<longrightarrow>
                   getpixel R img p = Some (C4 0 0 0 0) \<and> alpha (C4 0 0 0 0) = Some 0) \<and>
              ((\<forall>op p. R op p \<noteq> None \<longrightarrow> in_box (op_box op) p) \<longrightarrow>
                 (\<exists>body disk.
                    take 1 (im_ops img) = [Rectangle body (Some WHITE) (Some WHITE)] \<and>
                    badge_disk img = Some disk \<and>
                    (\<forall>p. in_image img p \<and> \<not> in_box body p \<and> \<not> in_box disk p \<longrightarrow>
                         getpixel R img p = Some (C4 0 0 0 0)))))"
    using opaque fg sp
    by (simp add: returned_app returned_foreground returned_splash)
  have part2: "s < 2 ^ 1023 \<longrightarrow>
            (\<exists>img. returned (generate_app_icon s h) = Inr img) \<and>
            (\<exists>img. returned (generate_foreground_icon s h) = Inr img) \<and>
            (\<exists>img. returned (generate_splash_icon s h) = Inr img)"
    unfolding returned_app returned_foreground returned_splash
    using total by blast
  from part1 part2 show ?thesis by (rule conjI [THEN iffD1 [OF conj_assoc]])
qed

theorem transparency_of_images_witness:
  "(0::int) < 16 \<and> (16::int) < 2 ^ 1023 \<and>
   (\<exists>app fg sp.
      returned (generate_app_icon 16 []) = Inr app \<and>
      getpixel box_raster app (0, 0) = Some (C3 26 26 46) \<and>
      alpha (C3 26 26 46) = None \<and>
      (\<forall>op p. box_raster op p \<noteq> None \<longrightarrow> in_box (op_box op) p) \<and>
      returned (generate_foreground_icon 16 []) = Inr fg \<and>
      im_mode fg = RGBA \<and>
      in_image fg (0, 0) \<and> (\<forall>op \<in> set (im_ops fg). box_raster op (0, 0) = None) \<and>
      getpixel box_raster fg (0, 0) = Some (C4 0 0 0 0) \<and>
      take 1 (im_ops fg) = [Rectangle (5, 5, 11, 11) (Some WHITE) (Some WHITE)] \<and>
      badge_disk fg = Some (10, 10, 12, 12) \<and>
      in_image fg (13, 2) \<and> \<not> in_box (5, 5, 11, 11) (13, 2) \<and>
      \<not> in_box (10, 10, 12, 12) (13, 2) \<and>
      getpixel box_raster fg (13, 2) = Some (C4 0 0 0 0) \<and>
      returned (generate_splash_icon 16 []) = Inr sp \<and>
      im_mode sp = RGBA \<and>
      in_image sp (0, 0) \<and> (\<forall>op \<in> set (im_ops sp). box_raster op (0, 0) = None) \<and>
      getpixel box_raster sp (0, 0) = Some (C4 0 0 0 0) \<and>
      take 1 (im_ops sp) = [Rectangle (6, 6, 10, 10) (Some WHITE) (Some WHITE)] \<and>
      badge_disk sp = Some (9, 9, 11, 11) \<and>
      in_image sp (13, 2) \<and> \<not> in_box (6, 6, 10, 10) (13, 2) \<and>
      \<not> in_box (9, 9, 11, 11) (13, 2) \<and>
      getpixel box_raster sp (13, 2) = Some (C4 0 0 0 0))"
proof -
  have pos: "(0::int) < 16" by simp
  have small: "(16::int) < 2 ^ 1023" by simp
  note T = transparency_of_images [OF pos, of "[]" box_raster]
  note T_app = T [THEN conjunct1, rule_format]
  note T_rgba = T [THEN conjunct2, THEN conjunct1, rule_format]
  note T_total = T [THEN conjunct2, THEN conjunct2, rule_format, OF small]
  have boxed: "\<forall>op p. box_raster op p \<noteq> None \<longrightarrow> in_box (op_box op) p"
    by (simp add: box_raster_def)
  have p: "int_of_product 16 c_0_4 = Inr 6" "int_of_product 6 c_0_6 = Inr 3"
    "int_of_product 16 c_0_7 = Inr 11" "int_of_product 16 c_0_075 = Inr 1"
    "int_of_product 1 c_0_6 = Inr 0"
    by code_simp+
  have q: "int_of_product 16 c_0_35 = Inr 5" "int_of_product 5 c_0_6 = Inr 3"
    "int_of_product 16 c_0_68 = Inr 10" "int_of_product 16 c_0_09 = Inr 1"
    by code_simp+
  define ops where "ops = notebook_ops (16 div 2) (16 div 2) 6 WHITE 3 @ badge_ops 11 11 1 0"
  define sops where "sops = notebook_ops (16 div 2) (16 div 2) 5 WHITE 3 @ badge_ops 10 10 1 0"

  txt \<open>The three generators return, and this is what they return.\<close>
  from T_total obtain app where a: "returned (generate_app_icon 16 []) = Inr app" by blast
  from T_total obtain fg where f: "returned (generate_foreground_icon 16 []) = Inr fg" by blast
  from T_total obtain sp where s: "returned (generate_splash_icon 16 []) = Inr sp" by blast
  have mem: "generate_foreground_icon \<in> {generate_foreground_icon, generate_splash_icon}"
    "generate_splash_icon \<in> {generate_foreground_icon, generate_splash_icon}"
    by simp_all
  note T_fg = T_rgba [OF mem(1) f]
  note T_sp = T_rgba [OF mem(2) s]
  have app: "app = \<lparr>im_mode = RGB, im_size = (16, 16), im_fill = BG_COLOR, im_ops = ops\<rparr>"
    using a by (simp add: returned_app icon_image_def p ops_def)
  have fg: "fg = \<lparr>im_mode = RGBA, im_size = (16, 16), im_fill = C4 0 0 0 0, im_ops = ops\<rparr>"
    using f by (simp add: returned_foreground icon_image_def p ops_def)
  have sp: "sp = \<lparr>im_mode = RGBA, im_size = (16, 16), im_fill = C4 0 0 0 0, im_ops = sops\<rparr>"
    using s by (simp add: returned_splash icon_image_def p(5) q sops_def)

  txt \<open>The app icon.\<close>
  have untouched: "\<forall>op \<in> set ops. box_raster op (0, 0) = None"
    by (simp add: ops_def notebook_ops_def badge_ops_def box_raster_def in_box_def)
  have t2: "getpixel box_raster app (0, 0) = Some (C3 26 26 46)"
    using untouched
    by (simp add: getpixel_def app in_image_def fold_untouched BG_COLOR_def)
  have t3: "alpha (C3 26 26 46) = None"
    using T_app [OF a] t2 by blast

  txt \<open>The foreground icon.\<close>
  have fmode: "im_mode fg = RGBA" using T_fg by (rule conjunct1)
  have fin: "in_image fg (0, 0)" "in_image fg (13, 2)" by (simp_all add: in_image_def fg)
  have fu: "\<forall>op \<in> set (im_ops fg). box_raster op (0, 0) = None"
    using untouched by (simp add: fg)
  have f1: "getpixel box_raster fg (0, 0) = Some (C4 0 0 0 0)"
    using T_fg [THEN conjunct2, THEN conjunct2, THEN conjunct1] fin(1) fu by blast
  have ffirst: "take 1 (im_ops fg) = [Rectangle (5, 5, 11, 11) (Some WHITE) (Some WHITE)]"
    by (simp add: fg ops_def notebook_ops_def)
  have fdisk: "badge_disk fg = Some (10, 10, 12, 12)"
    by (simp add: fg ops_def notebook_ops_def badge_ops_def badge_disk_def)
  have fout: "\<not> in_box (5, 5, 11, 11) (13, 2)" "\<not> in_box (10, 10, 12, 12) (13, 2)"
    by (simp_all add: in_box_def)
  from T_fg [THEN conjunct2, THEN conjunct2, THEN conjunct2] boxed obtain body disk' where
    b: "take 1 (im_ops fg) = [Rectangle body (Some WHITE) (Some WHITE)]"
    and d: "badge_disk fg = Some disk'"
    and o: "\<forall>p. in_image fg p \<and> \<not> in_box body p \<and> \<not> in_box disk' p \<longrightarrow>
                getpixel box_raster fg p = Some (C4 0 0 0 0)"
    by blast
  have "body = (5, 5, 11, 11)" using b ffirst by simp
  moreover have "disk' = (10, 10, 12, 12)" using d fdisk by simp
  ultimately have f2: "getpixel box_raster fg (13, 2) = Some (C4 0 0 0 0)"
    using o fin(2) fout by blast

  txt \<open>The splash icon.\<close>
  have smode: "im_mode sp = RGBA" using T_sp by (rule conjunct1)
  have sin: "in_image sp (0, 0)" "in_image sp (13, 2)" by (simp_all add: in_image_def sp)
  have su: "\<forall>op \<in> set (im_ops sp). box_raster op (0, 0) = None"
    by (simp add: sp sops_def notebook_ops_def badge_ops_def box_raster_def in_box_def)
  have s1: "getpixel box_raster sp (0, 0) = Some (C4 0 0 0 0)"
    using T_sp [THEN conjunct2, THEN conjunct2, THEN conjunct1] sin(1) su by blast
  have sfirst: "take 1 (im_ops sp) = [Rectangle (6, 6, 10, 10) (Some WHITE) (Some WHITE)]"
    by (simp add: sp sops_def notebook_ops_def)
  have sdisk: "badge_disk sp = Some (9, 9, 11, 11)"
    by (simp add: sp sops_def notebook_ops_def badge_ops_def badge_disk_def)
  have sout: "\<not> in_box (6, 6, 10, 10) (13, 2)" "\<not> in_box (9, 9, 11, 11) (13, 2)"
    by (simp_all add: in_box_def)
  from T_sp [THEN conjunct2, THEN conjunct2, THEN conjunct2] boxed obtain sbody sdisk' where
    sb: "take 1 (im_ops sp) = [Rectangle sbody (Some WHITE) (Some WHITE)]"
    and sd: "badge_disk sp = Some sdisk'"
    and so: "\<forall>p. in_image sp p \<and> \<not> in_box sbody p \<and> \<not> in_box sdisk' p \<longrightarrow>
                getpixel box_raster sp p = Some (C4 0 0 0 0)"
    by blast
  have "sbody = (6, 6, 10, 10)" using sb sfirst by simp
  moreover have "sdisk' = (9, 9, 11, 11)" using sd sdisk by simp
  ultimately have s2: "getpixel box_raster sp (13, 2) = Some (C4 0 0 0 0)"
    using so sin(2) sout by blast

  have E: "\<exists>app fg sp.
      returned (generate_app_icon 16 []) = Inr app \<and>
      getpixel box_raster app (0, 0) = Some (C3 26 26 46) \<and>
      alpha (C3 26 26 46) = None \<and>
      (\<forall>op p. box_raster op p \<noteq> None \<longrightarrow> in_box (op_box op) p) \<and>
      returned (generate_foreground_icon 16 []) = Inr fg \<and>
      im_mode fg = RGBA \<and>
      in_image fg (0, 0) \<and> (\<forall>op \<in> set (im_ops fg). box_raster op (0, 0) = None) \<and>
      getpixel box_raster fg (0, 0) = Some (C4 0 0 0 0) \<and>
      take 1 (im_ops fg) = [Rectangle (5, 5, 11, 11) (Some WHITE) (Some WHITE)] \<and>
      badge_disk fg = Some (10, 10, 12, 12) \<and>
      in_image fg (13, 2) \<and> \<not> in_box (5, 5, 11, 11) (13, 2) \<and>
      \<not> in_box (10, 10, 12, 12) (13, 2) \<and>
      getpixel box_raster fg (13, 2) = Some (C4 0 0 0 0) \<and>
      returned (generate_splash_icon 16 []) = Inr sp \<and>
      im_mode sp = RGBA \<and>
      in_image sp (0, 0) \<and> (\<forall>op \<in> set (im_ops sp). box_raster op (0, 0) = None) \<and>
      getpixel box_raster sp (0, 0) = Some (C4 0 0 0 0) \<and>
      take 1 (im_ops sp) = [Rectangle (6, 6, 10, 10) (Some WHITE) (Some WHITE)] \<and>
      badge_disk sp = Some (9, 9, 11, 11) \<and>
      in_image sp (13, 2) \<and> \<not> in_box (6, 6, 10, 10) (13, 2) \<and>
      \<not> in_box (9, 9, 11, 11) (13, 2) \<and>
      getpixel box_raster sp (13, 2) = Some (C4 0 0 0 0)"
    apply (rule exI [of _ app])
    apply (rule exI [of _ fg])
    apply (rule exI [of _ sp])
    apply (intro conjI)
    apply (rule a t2 t3 boxed f fmode fin fu f1 ffirst fdisk fout f2
        s smode sin su s1 sfirst sdisk sout s2)+
    done
  show ?thesis
    by (intro conjI) (rule pos small E)+
qed

subsection \<open>A missing imaging library\<close>

text \<open>
  Claim C4.  When the import of the imaging library fails, the program prints the two
  lines of the remediation message and exits with status 1; no generator has run, no
  image object exists that did not exist before, and no file or directory has been
  created or changed.
\<close>

theorem missing_pillow_exits:
  "script False is_main script_file w =
     (Exit 1, w\<lparr>stdout := stdout w @ [''Error: Pillow library not found.'',
                                       ''Install it with: pip install pillow'']\<rparr>)
   \<and> files (snd (script False is_main script_file w)) = files w
   \<and> dirs (snd (script False is_main script_file w)) = dirs w
   \<and> heap (snd (script False is_main script_file w)) = heap w"
  by (simp add: script_def print_def Let_def)

subsection \<open>The files that a run writes\<close>

lemma generators_at_fixed_sizes:
  "\<exists>app fg sp.
     (\<forall>h. generate_app_icon 1024 h = Inr (length h, h @ [app])) \<and>
     (\<forall>h. generate_foreground_icon 1024 h = Inr (length h, h @ [fg])) \<and>
     (\<forall>h. generate_splash_icon 512 h = Inr (length h, h @ [sp]))"
proof -
  have "\<exists>img. icon_image RGB BG_COLOR c_0_4 c_0_7 c_0_075 1024 = Inr img"
    by (rule icon_image_defined) (simp_all add: fraction_literals)
  then obtain app where app: "icon_image RGB BG_COLOR c_0_4 c_0_7 c_0_075 1024 = Inr app" ..
  have "\<exists>img. icon_image RGBA (C4 0 0 0 0) c_0_4 c_0_7 c_0_075 1024 = Inr img"
    by (rule icon_image_defined) (simp_all add: fraction_literals)
  then obtain fg where fg: "icon_image RGBA (C4 0 0 0 0) c_0_4 c_0_7 c_0_075 1024 = Inr fg" ..
  have "\<exists>img. icon_image RGBA (C4 0 0 0 0) c_0_35 c_0_68 c_0_09 512 = Inr img"
    by (rule icon_image_defined) (simp_all add: fraction_literals)
  then obtain sp where sp: "icon_image RGBA (C4 0 0 0 0) c_0_35 c_0_68 c_0_09 512 = Inr sp" ..
  have "\<forall>h. generate_app_icon 1024 h = Inr (length h, h @ [app])"
    by (simp add: generate_app_icon_image app)
  moreover have "\<forall>h. generate_foreground_icon 1024 h = Inr (length h, h @ [fg])"
    by (simp add: generate_foreground_icon_image fg)
  moreover have "\<forall>h. generate_splash_icon 512 h = Inr (length h, h @ [sp])"
    by (simp add: generate_splash_icon_image sp)
  ultimately show ?thesis by blast
qed

lemma print_fields:
  "heap (print s w) = heap w" "files (print s w) = files w" "dirs (print s w) = dirs w"
  by (simp_all add: print_def)

lemma save_fields:
  assumes "save img p w = Inr w'"
  shows "files w' = (files w)(p \<mapsto> heap w ! img) \<and> dirs w' = dirs w \<and> heap w' = heap w"
  using assms by (auto simp add: save_def split: if_splits)

lemma makedirs_fields:
  assumes "makedirs p w = Inr w'"
  shows "files w' = files w \<and> dirs w' = dirs w \<union> set (prefixes p) \<and> heap w' = heap w"
  using assms by (auto simp add: makedirs_def split: if_splits)

lemma main_fields:
  assumes gen: "\<And>h. generate_app_icon 1024 h = Inr (length h, h @ [app])"
    "\<And>h. generate_foreground_icon 1024 h = Inr (length h, h @ [fg])"
    "\<And>h. generate_splash_icon 512 h = Inr (length h, h @ [sp])"
    and run: "main script_file w = (None, w')"
  shows "files w' =
             (files w)
               (join (dirname script_file) ''app_icon.png'' \<mapsto> app,
                join (dirname script_file) ''app_icon_foreground.png'' \<mapsto> fg,
                join (join (dirname (dirname script_file)) ''splash'') ''splash_icon.png'' \<mapsto> sp)
         \<and> dirs w' = dirs w \<union> set (prefixes (join (dirname (dirname script_file)) ''splash''))"
  using run
  by (auto simp add: main_def Let_def gen print_fields nth_append
        split: sum.splits dest!: save_fields makedirs_fields)

text \<open>
  Claim C8.  A run of \<^verbatim>\<open>main()\<close> that completes has written exactly three files and
  changed nothing else in the file store: \<^verbatim>\<open>app_icon.png\<close> and
  \<^verbatim>\<open>app_icon_foreground.png\<close> in the directory of the script, holding the app icon and
  the foreground icon of size 1024, and \<^verbatim>\<open>splash_icon.png\<close>, holding the splash icon of
  size 512, in the directory \<^verbatim>\<open>splash\<close> beside the directory of the script.  The three
  paths are different, and \<^verbatim>\<open>splash\<close> is a directory afterwards: it is the only
  directory added when the parent of the script's directory was in place.
\<close>

theorem main_writes_three_files:
  assumes "main script_file w = (None, w')"
  shows "\<exists>app fg sp.
           returned (generate_app_icon 1024 (heap w)) = Inr app \<and>
           returned (generate_foreground_icon 1024 (heap w)) = Inr fg \<and>
           returned (generate_splash_icon 512 (heap w)) = Inr sp \<and>
           files w' =
             (files w)
               (join (dirname script_file) ''app_icon.png'' \<mapsto> app,
                join (dirname script_file) ''app_icon_foreground.png'' \<mapsto> fg,
                join (join (dirname (dirname script_file)) ''splash'') ''splash_icon.png'' \<mapsto> sp) \<and>
           distinct
             [join (dirname script_file) ''app_icon.png'',
              join (dirname script_file) ''app_icon_foreground.png'',
              join (join (dirname (dirname script_file)) ''splash'') ''splash_icon.png''] \<and>
           dirs w' = dirs w \<union> set (prefixes (join (dirname (dirname script_file)) ''splash'')) \<and>
           join (dirname (dirname script_file)) ''splash'' \<in> dirs w' \<and>
           (set (prefixes (dirname (dirname script_file))) \<subseteq> dirs w \<longrightarrow>
              dirs w' = insert (join (dirname (dirname script_file)) ''splash'') (dirs w))"
proof -
  obtain app fg sp where gen:
    "\<And>h. generate_app_icon 1024 h = Inr (length h, h @ [app])"
    "\<And>h. generate_foreground_icon 1024 h = Inr (length h, h @ [fg])"
    "\<And>h. generate_splash_icon 512 h = Inr (length h, h @ [sp])"
    using generators_at_fixed_sizes by blast
  have ret: "returned (generate_app_icon 1024 (heap w)) = Inr app"
    "returned (generate_foreground_icon 1024 (heap w)) = Inr fg"
    "returned (generate_splash_icon 512 (heap w)) = Inr sp"
    by (simp_all add: gen returned_def)
  have f: "files w' =
             (files w)
               (join (dirname script_file) ''app_icon.png'' \<mapsto> app,
                join (dirname script_file) ''app_icon_foreground.png'' \<mapsto> fg,
                join (join (dirname (dirname script_file)) ''splash'') ''splash_icon.png'' \<mapsto> sp)"
    and d: "dirs w' = dirs w \<union> set (prefixes (join (dirname (dirname script_file)) ''splash''))"
    using main_fields [OF gen assms] by simp_all
  have dist: "distinct
             [join (dirname script_file) ''app_icon.png'',
              join (dirname script_file) ''app_icon_foreground.png'',
              join (join (dirname (dirname script_file)) ''splash'') ''splash_icon.png'']"
    by (simp add: join_def)
  have mem: "join (dirname (dirname script_file)) ''splash'' \<in> dirs w'"
    by (simp add: d)
  have only: "dirs w' = insert (join (dirname (dirname script_file)) ''splash'') (dirs w)"
    if "set (prefixes (dirname (dirname script_file))) \<subseteq> dirs w"
    using that by (auto simp add: d join_def)
  show ?thesis using ret f dist d mem only by blast
qed

theorem main_writes_three_files_witness:
  "\<exists>w'. main [''icon'', ''generate_icons.py'']
           \<lparr>heap = [], files = Map.empty, dirs = {[], [''icon'']}, stdout = []\<rparr> = (None, w') \<and>
        dom (files w') =
          {[''icon'', ''app_icon.png''], [''icon'', ''app_icon_foreground.png''],
           [''splash'', ''splash_icon.png'']} \<and>
        dirs w' = {[], [''icon''], [''splash'']}"
proof -
  define w0 :: world
    where "w0 = \<lparr>heap = [], files = Map.empty, dirs = {[], [''icon'']}, stdout = []\<rparr>"
  obtain app fg sp where gen:
    "\<And>h. generate_app_icon 1024 h = Inr (length h, h @ [app])"
    "\<And>h. generate_foreground_icon 1024 h = Inr (length h, h @ [fg])"
    "\<And>h. generate_splash_icon 512 h = Inr (length h, h @ [sp])"
    using generators_at_fixed_sizes by blast
  have "fst (main [''icon'', ''generate_icons.py''] w0) = None"
    by (simp add: main_def Let_def gen save_def makedirs_def print_def dirname_def join_def
        w0_def)
  then obtain w' where run: "main [''icon'', ''generate_icons.py''] w0 = (None, w')"
    by (cases "main [''icon'', ''generate_icons.py''] w0") simp
  from main_writes_three_files [OF run]
  obtain a f s where f: "files w' =
             (files w0)
               (join (dirname [''icon'', ''generate_icons.py'']) ''app_icon.png'' \<mapsto> a,
                join (dirname [''icon'', ''generate_icons.py'']) ''app_icon_foreground.png'' \<mapsto> f,
                join (join (dirname (dirname [''icon'', ''generate_icons.py''])) ''splash'')
                  ''splash_icon.png'' \<mapsto> s)"
    and d: "set (prefixes (dirname (dirname [''icon'', ''generate_icons.py'']))) \<subseteq> dirs w0 \<longrightarrow>
              dirs w' = insert (join (dirname (dirname [''icon'', ''generate_icons.py''])) ''splash'')
                          (dirs w0)"
    by blast
  have "dom (files w') =
          {[''icon'', ''app_icon.png''], [''icon'', ''app_icon_foreground.png''],
           [''splash'', ''splash_icon.png'']}"
    unfolding f by (auto simp add: dirname_def join_def w0_def)
  moreover have "dirs w' = {[], [''icon''], [''splash'']}"
    using d by (auto simp add: dirname_def join_def w0_def)
  ultimately show ?thesis using run unfolding w0_def by blast
qed

end
